theory Spec2Isabelle
  imports Main
begin

section \<open>Event catalog\<close>

text \<open>The enum \<^verbatim>\<open>EventCategory\<close> and its string values.\<close>

datatype EventCategory = USER_ENGAGEMENT | DECISION_FLOW | AI_INTERACTION | FEEDBACK | SESSION

fun category_value :: "EventCategory \<Rightarrow> string" where
  "category_value USER_ENGAGEMENT = ''User Engagement''"
| "category_value DECISION_FLOW = ''Decision Flow''"
| "category_value AI_INTERACTION = ''AI Interaction''"
| "category_value FEEDBACK = ''Feedback''"
| "category_value SESSION = ''Session''"

text \<open>The keys of \<^verbatim>\<open>MixpanelEventPayloads\<close>: the closed set of event names.\<close>

datatype event_name =
    SessionStarted | SessionEnded | TimeBetweenSessions
  | DiscussionStarted | ProsAndConsGenerated | DecisionCompleted
  | AbandonedDiscussion | OpenedSummaryView | UserLeftAppMidway
  | AIInteracted | ClickedAIResponse
  | FeedbackButtonClicked | FeedbackSubmitted

text \<open>\<^verbatim>\<open>eventName as string\<close>.\<close>

fun name_string :: "event_name \<Rightarrow> string" where
  "name_string SessionStarted = ''SessionStarted''"
| "name_string SessionEnded = ''SessionEnded''"
| "name_string TimeBetweenSessions = ''TimeBetweenSessions''"
| "name_string DiscussionStarted = ''DiscussionStarted''"
| "name_string ProsAndConsGenerated = ''ProsAndConsGenerated''"
| "name_string DecisionCompleted = ''DecisionCompleted''"
| "name_string AbandonedDiscussion = ''AbandonedDiscussion''"
| "name_string OpenedSummaryView = ''OpenedSummaryView''"
| "name_string UserLeftAppMidway = ''UserLeftAppMidway''"
| "name_string AIInteracted = ''AIInteracted''"
| "name_string ClickedAIResponse = ''ClickedAIResponse''"
| "name_string FeedbackButtonClicked = ''FeedbackButtonClicked''"
| "name_string FeedbackSubmitted = ''FeedbackSubmitted''"

fun EVENT_CATEGORIES :: "event_name \<Rightarrow> EventCategory" where
  "EVENT_CATEGORIES SessionStarted = SESSION"
| "EVENT_CATEGORIES SessionEnded = SESSION"
| "EVENT_CATEGORIES TimeBetweenSessions = SESSION"
| "EVENT_CATEGORIES DiscussionStarted = DECISION_FLOW"
| "EVENT_CATEGORIES ProsAndConsGenerated = DECISION_FLOW"
| "EVENT_CATEGORIES DecisionCompleted = DECISION_FLOW"
| "EVENT_CATEGORIES AbandonedDiscussion = DECISION_FLOW"
| "EVENT_CATEGORIES OpenedSummaryView = DECISION_FLOW"
| "EVENT_CATEGORIES UserLeftAppMidway = DECISION_FLOW"
| "EVENT_CATEGORIES AIInteracted = AI_INTERACTION"
| "EVENT_CATEGORIES ClickedAIResponse = AI_INTERACTION"
| "EVENT_CATEGORIES FeedbackButtonClicked = FEEDBACK"
| "EVENT_CATEGORIES FeedbackSubmitted = FEEDBACK"

section \<open>Payloads\<close>

text \<open>
  The values a payload field holds. Numbers are the integers the helpers compute
  (durations, counts, positions), with \<open>JNaN\<close> apart since it is falsy; arrays are the
  string arrays of \<^verbatim>\<open>models_used\<close>.
\<close>

datatype jsval =
    JUndefined | JNull | JBool bool | JNum int | JNaN | JStr string | JArr "string list"

text \<open>JavaScript's ToBoolean, as the operator \<^verbatim>\<open>||\<close> applies it.\<close>

fun truthy :: "jsval \<Rightarrow> bool" where
  "truthy JUndefined = False"
| "truthy JNull = False"
| "truthy (JBool b) = b"
| "truthy (JNum n) = (n \<noteq> 0)"
| "truthy JNaN = False"
| "truthy (JStr s) = (s \<noteq> [])"
| "truthy (JArr xs) = True"

text \<open>
  An object literal is the list of its properties in insertion order. Reading a property
  that is absent gives \<^verbatim>\<open>undefined\<close>; writing one that is present replaces its value
  in place, writing a new one appends it.
\<close>

type_synonym jsobject = "(string \<times> jsval) list"

definition get_prop :: "jsobject \<Rightarrow> string \<Rightarrow> jsval" where
  "get_prop obj k = (case map_of obj k of None \<Rightarrow> JUndefined | Some v \<Rightarrow> v)"

fun set_prop :: "string \<Rightarrow> jsval \<Rightarrow> jsobject \<Rightarrow> jsobject" where
  "set_prop k v [] = [(k, v)]"
| "set_prop k v ((k', v') # obj) =
     (if k' = k then (k, v) # obj else (k', v') # set_prop k v obj)"

text \<open>
  The object literal of \<^verbatim>\<open>trackEvent\<close>:
  \<^verbatim>\<open>{...payload, event_category: EVENT_CATEGORIES[eventName],
    timestamp: payload.timestamp || new Date().toISOString()}\<close>.
  \<open>now\<close> is what \<^verbatim>\<open>new Date().toISOString()\<close> returns at the call.
\<close>

definition enrichedPayload :: "event_name \<Rightarrow> jsobject \<Rightarrow> string \<Rightarrow> jsobject" where
  "enrichedPayload eventName payload now =
     set_prop ''timestamp''
       (if truthy (get_prop payload ''timestamp'') then get_prop payload ''timestamp''
        else JStr now)
       (set_prop ''event_category'' (JStr (category_value (EVENT_CATEGORIES eventName)))
          payload)"

section \<open>The sink, the console and the module state\<close>

text \<open>
  A caller's callback either returns or throws when it is invoked.
\<close>

datatype callback = CbReturns | CbThrows

text \<open>
  The calls the module makes on the \<^verbatim>\<open>mixpanel\<close> object. \<open>Init\<close> carries the token
  and the \<^verbatim>\<open>debug\<close> option (the other options are constants); \<open>Register\<close> carries the
  platform; \<open>Track\<close> carries the callback handed to the sink, if any.
\<close>

datatype sink_call =
    Init string bool
  | Register string
  | Track string jsobject "callback option"
  | Identify string
  | PeopleSet jsobject
  | Reset

text \<open>The console lines, one constructor per message of the source.\<close>

datatype console_msg =
    LogFlushing nat
  | ErrFlushFailed string
  | LogInitializing nat
  | LogInitialized
  | ErrInitFailed nat
  | ErrInitGaveUp nat
  | LogQueued string
  | LogTracking string jsobject
  | ErrTrackingFailed string
  | WarnCannotIdentify
  | LogIdentified string jsobject
  | ErrIdentifyFailed
  | WarnCannotReset
  | LogReset
  | ErrResetFailed

text \<open>
  Everything the module does to the outside, in the order it does it: a call on the sink,
  an invocation of the caller's callback by the module itself, a console line, and
  \<^verbatim>\<open>setTimeout(initialize, delay)\<close> (with the closure it belongs to).
\<close>

datatype effect =
    Sink sink_call
  | CallbackCall
  | Console console_msg
  | SetTimeout nat nat

text \<open>
  The sink is external: it is a parameter. Given the calls made on it so far and the
  present call, it says whether the present call throws.
\<close>

type_synonym sink = "sink_call list \<Rightarrow> sink_call \<Rightarrow> bool"

text \<open>What a function of the module lets escape to its caller.\<close>

datatype exn = SinkError sink_call | CallbackError

text \<open>
  The variables \<^verbatim>\<open>token\<close> and \<^verbatim>\<open>retries\<close> that one activation of
  \<^verbatim>\<open>initMixpanel\<close> creates and its \<^verbatim>\<open>initialize\<close> closes over.
\<close>

record closure =
  token :: string
  retries :: nat

record queued =
  name :: string
  props :: jsobject

text \<open>
  The module-level variables, the store of closures, the timers that are pending
  (closure, delay in milliseconds) and the effects so far.
\<close>

record state =
  mixpanelDebugMode :: bool
  mixpanelInitialized :: bool
  eventBackupQueue :: "queued list"
  closures :: "closure list"
  timers :: "(nat \<times> nat) list"
  trace :: "effect list"

definition MAX_QUEUE_SIZE :: nat where
  "MAX_QUEUE_SIZE = 50"

definition MAX_RETRIES :: nat where
  "MAX_RETRIES = 3"

text \<open>The state when the module has been loaded.\<close>

definition initial_state :: state where
  "initial_state =
     \<lparr>mixpanelDebugMode = False, mixpanelInitialized = False, eventBackupQueue = [],
      closures = [], timers = [], trace = []\<rparr>"

definition emit :: "effect \<Rightarrow> state \<Rightarrow> state" where
  "emit e s = s\<lparr>trace := trace s @ [e]\<rparr>"

text \<open>\<^verbatim>\<open>if (mixpanelDebugMode) console.log(...)\<close>.\<close>

definition debug_log :: "console_msg \<Rightarrow> state \<Rightarrow> state" where
  "debug_log m s = (if mixpanelDebugMode s then emit (Console m) s else s)"

fun sink_calls :: "effect list \<Rightarrow> sink_call list" where
  "sink_calls [] = []"
| "sink_calls (Sink c # es) = c # sink_calls es"
| "sink_calls (e # es) = sink_calls es"

text \<open>
  A piece of code run on the state: it returns (\<open>None\<close>) or throws (\<open>Some e\<close>), and
  leaves a state either way.
\<close>

type_synonym action = "state \<Rightarrow> exn option \<times> state"

text \<open>Code that cannot throw.\<close>

definition ok :: "(state \<Rightarrow> state) \<Rightarrow> action" where
  "ok f s = (None, f s)"

text \<open>\<^verbatim>\<open>a; b\<close>: when \<open>a\<close> throws, \<open>b\<close> is not run.\<close>

definition and_then :: "action \<Rightarrow> action \<Rightarrow> action" where
  "and_then a b s = (case a s of (None, s') \<Rightarrow> b s' | (Some e, s') \<Rightarrow> (Some e, s'))"

text \<open>\<^verbatim>\<open>try { body } catch (error) { handler }\<close>\<close>

definition try_catch :: "action \<Rightarrow> action \<Rightarrow> action" where
  "try_catch body handler s =
     (case body s of (None, s') \<Rightarrow> (None, s') | (Some e, s') \<Rightarrow> handler s')"

text \<open>A call on the sink: it is recorded, and it returns or throws as the sink decides.\<close>

definition call_sink :: "sink \<Rightarrow> sink_call \<Rightarrow> action" where
  "call_sink sk c s =
     (if sk (sink_calls (trace s)) c then Some (SinkError c) else None, emit (Sink c) s)"

text \<open>The module invokes the caller's callback.\<close>

definition invoke :: "callback \<Rightarrow> action" where
  "invoke cb s = (if cb = CbThrows then Some CallbackError else None, emit CallbackCall s)"

text \<open>\<^verbatim>\<open>if (callback) callback();\<close>\<close>

definition call_back :: "callback option \<Rightarrow> action" where
  "call_back callback = (case callback of None \<Rightarrow> ok id | Some cb \<Rightarrow> invoke cb)"

section \<open>flushEventQueue\<close>

text \<open>
  One turn of the loop after \<^verbatim>\<open>shift()\<close>: \<^verbatim>\<open>mixpanel.track(event.name, event.props)\<close>
  inside its own \<^verbatim>\<open>try\<close>, whose \<^verbatim>\<open>catch\<close> writes a console error.
\<close>

definition flush_event :: "sink \<Rightarrow> queued \<Rightarrow> action" where
  "flush_event sk event =
     try_catch (call_sink sk (Track (name event) (props event) None))
       (ok (emit (Console (ErrFlushFailed (name event)))))"

text \<open>\<^verbatim>\<open>while (eventBackupQueue.length > 0) { const event = eventBackupQueue.shift(); ... }\<close>\<close>

function flush_loop :: "sink \<Rightarrow> action" where
  "flush_loop sk s =
     (case eventBackupQueue s of
        [] \<Rightarrow> (None, s)
      | event # rest \<Rightarrow>
          (case flush_event sk event (s\<lparr>eventBackupQueue := rest\<rparr>) of
             (None, s') \<Rightarrow> flush_loop sk s'
           | (Some e, s') \<Rightarrow> (Some e, s')))"
  by pat_completeness auto
termination
  by (relation "measure (\<lambda>(sk, s). length (eventBackupQueue s))")
    (auto simp: flush_event_def try_catch_def call_sink_def ok_def emit_def
      split: if_splits)

declare flush_loop.simps [simp del]

definition flushEventQueue :: "sink \<Rightarrow> action" where
  "flushEventQueue sk s =
     (if \<not> mixpanelInitialized s \<or> length (eventBackupQueue s) = 0 then (None, s)
      else and_then (ok (debug_log (LogFlushing (length (eventBackupQueue s)))))
             (flush_loop sk) s)"

section \<open>initMixpanel\<close>

text \<open>
  \<^verbatim>\<open>/Mobi|Android/i.test(navigator.userAgent) ? 'mobile' : 'web'\<close>, where \<open>mobile\<close>
  is what the test gives in this browser.
\<close>

definition platform :: "bool \<Rightarrow> string" where
  "platform mobile = (if mobile then ''mobile'' else ''web'')"

text \<open>\<^verbatim>\<open>retries++\<close> in the closure \<open>a\<close>.\<close>

definition increment_retries :: "nat \<Rightarrow> state \<Rightarrow> state" where
  "increment_retries a s =
     s\<lparr>closures := (closures s)[a := (closures s ! a)\<lparr>retries := retries (closures s ! a) + 1\<rparr>]\<rparr>"

text \<open>\<^verbatim>\<open>setTimeout(initialize, delay)\<close> by the \<^verbatim>\<open>initialize\<close> of the closure \<open>a\<close>.\<close>

definition setTimeout :: "nat \<Rightarrow> nat \<Rightarrow> state \<Rightarrow> state" where
  "setTimeout a delay s = emit (SetTimeout a delay) (s\<lparr>timers := timers s @ [(a, delay)]\<rparr>)"

text \<open>
  The \<^verbatim>\<open>catch\<close> block of \<^verbatim>\<open>initialize\<close>, for the closure \<open>a\<close>: the error line, then
  \<^verbatim>\<open>retries++\<close> and \<^verbatim>\<open>setTimeout(initialize, 1000 * Math.pow(2, retries))\<close> while
  \<^verbatim>\<open>retries < MAX_RETRIES\<close>, the final error line otherwise.
\<close>

definition initialize_catch :: "nat \<Rightarrow> state \<Rightarrow> state" where
  "initialize_catch a s =
     (let s1 = emit (Console (ErrInitFailed (retries (closures s ! a) + 1))) s
      in if retries (closures s1 ! a) < MAX_RETRIES then
           (let s2 = increment_retries a s1
            in setTimeout a (1000 * 2 ^ retries (closures s2 ! a)) s2)
         else emit (Console (ErrInitGaveUp MAX_RETRIES)) s1)"

text \<open>The \<^verbatim>\<open>try\<close> block of \<^verbatim>\<open>initialize\<close>, for the closure \<open>a\<close>.\<close>

definition initialize_try :: "sink \<Rightarrow> bool \<Rightarrow> nat \<Rightarrow> action" where
  "initialize_try sk mobile a =
     and_then (\<lambda>s. ok (debug_log (LogInitializing (retries (closures s ! a) + 1))) s)
    (and_then (\<lambda>s. call_sink sk (Init (token (closures s ! a)) (mixpanelDebugMode s)) s)
    (and_then (call_sink sk (Register (platform mobile)))
    (and_then (ok (\<lambda>s. s\<lparr>mixpanelInitialized := True\<rparr>))
    (and_then (ok (debug_log LogInitialized))
              (flushEventQueue sk)))))"

definition initialize :: "sink \<Rightarrow> bool \<Rightarrow> nat \<Rightarrow> action" where
  "initialize sk mobile a = try_catch (initialize_try sk mobile a) (ok (initialize_catch a))"

text \<open>
  \<^verbatim>\<open>initMixpanel(token, debug)\<close>: sets the module's debug flag, creates the closure
  with \<^verbatim>\<open>retries = 0\<close> and runs \<^verbatim>\<open>initialize\<close> once.
\<close>

definition initMixpanel :: "sink \<Rightarrow> bool \<Rightarrow> string \<Rightarrow> bool \<Rightarrow> action" where
  "initMixpanel sk mobile tok debug s =
     initialize sk mobile (length (closures s))
       (s\<lparr>mixpanelDebugMode := debug,
          closures := closures s @ [\<lparr>token = tok, retries = 0\<rparr>]\<rparr>)"

text \<open>
  The event loop runs the \<open>k\<close>-th pending timer: the timer is gone and its
  \<^verbatim>\<open>initialize\<close> runs. Nothing happens when there is no such timer.
\<close>

definition fire_timer :: "sink \<Rightarrow> bool \<Rightarrow> nat \<Rightarrow> action" where
  "fire_timer sk mobile k s =
     (if k < length (timers s) then
        initialize sk mobile (fst (timers s ! k))
          (s\<lparr>timers := take k (timers s) @ drop (Suc k) (timers s)\<rparr>)
      else (None, s))"

section \<open>The tracking functions\<close>

text \<open>
  \<^verbatim>\<open>if (eventBackupQueue.length < MAX_QUEUE_SIZE) { eventBackupQueue.push(...); ... }\<close>:
  the push and the debug line when there is room, nothing otherwise.
\<close>

definition enqueue :: "event_name \<Rightarrow> jsobject \<Rightarrow> state \<Rightarrow> state" where
  "enqueue eventName enriched s =
     (if length (eventBackupQueue s) < MAX_QUEUE_SIZE then
        debug_log (LogQueued (name_string eventName))
          (s\<lparr>eventBackupQueue :=
               eventBackupQueue s @ [\<lparr>name = name_string eventName, props = enriched\<rparr>]\<rparr>)
      else s)"

text \<open>
  The \<^verbatim>\<open>try\<close> block of \<^verbatim>\<open>trackEvent\<close>: while Mixpanel is not initialized the event
  is queued and the callback, if any, is invoked; otherwise \<^verbatim>\<open>mixpanel.track\<close> is called
  with the enriched payload and the callback.
\<close>

definition trackEvent_try ::
  "sink \<Rightarrow> event_name \<Rightarrow> jsobject \<Rightarrow> callback option \<Rightarrow> string \<Rightarrow> action" where
  "trackEvent_try sk eventName payload callback now s =
     (let enriched = enrichedPayload eventName payload now
      in if \<not> mixpanelInitialized s then
           and_then (ok (enqueue eventName enriched)) (call_back callback) s
         else
           and_then (ok (debug_log (LogTracking (name_string eventName) enriched)))
             (call_sink sk (Track (name_string eventName) enriched callback)) s)"

text \<open>The \<^verbatim>\<open>catch\<close> block of \<^verbatim>\<open>trackEvent\<close>: the error line, then the callback, if any.\<close>

definition trackEvent_catch :: "event_name \<Rightarrow> callback option \<Rightarrow> action" where
  "trackEvent_catch eventName callback =
     and_then (ok (emit (Console (ErrTrackingFailed (name_string eventName)))))
       (call_back callback)"

definition trackEvent ::
  "sink \<Rightarrow> event_name \<Rightarrow> jsobject \<Rightarrow> callback option \<Rightarrow> string \<Rightarrow> action" where
  "trackEvent sk eventName payload callback now =
     try_catch (trackEvent_try sk eventName payload callback now)
       (trackEvent_catch eventName callback)"

text \<open>
  \<^verbatim>\<open>identifyUser\<close>: a warning while Mixpanel is not initialized; otherwise
  \<^verbatim>\<open>mixpanel.identify\<close>, then \<^verbatim>\<open>mixpanel.people.set\<close> when properties are given, then
  the debug line. Its \<^verbatim>\<open>catch\<close> block writes an error line.
\<close>

definition identifyUser_try :: "sink \<Rightarrow> string \<Rightarrow> jsobject option \<Rightarrow> action" where
  "identifyUser_try sk userId userProperties s =
     (if \<not> mixpanelInitialized s then ok (emit (Console WarnCannotIdentify)) s
      else
        and_then (call_sink sk (Identify userId))
       (and_then (case userProperties of None \<Rightarrow> ok id | Some p \<Rightarrow> call_sink sk (PeopleSet p))
                 (ok (debug_log
                   (LogIdentified userId (case userProperties of None \<Rightarrow> [] | Some p \<Rightarrow> p))))) s)"

definition identifyUser :: "sink \<Rightarrow> string \<Rightarrow> jsobject option \<Rightarrow> action" where
  "identifyUser sk userId userProperties =
     try_catch (identifyUser_try sk userId userProperties)
       (ok (emit (Console ErrIdentifyFailed)))"

text \<open>\<^verbatim>\<open>resetUser\<close>, in the same way, with \<^verbatim>\<open>mixpanel.reset\<close>.\<close>

definition resetUser_try :: "sink \<Rightarrow> action" where
  "resetUser_try sk s =
     (if \<not> mixpanelInitialized s then ok (emit (Console WarnCannotReset)) s
      else and_then (call_sink sk Reset) (ok (debug_log LogReset)) s)"

definition resetUser :: "sink \<Rightarrow> action" where
  "resetUser sk = try_catch (resetUser_try sk) (ok (emit (Console ErrResetFailed)))"

section \<open>Category helpers\<close>

text \<open>
  Each helper builds the payload of one event and calls \<^verbatim>\<open>trackEvent\<close> without a
  callback. \<open>now\<close> is the clock as \<^verbatim>\<open>new Date().toISOString()\<close> reads it during the
  call; \<open>elapsed\<close> is the value that the floating-point subtraction
  \<^verbatim>\<open>Date.now() - startTime\<close> has in the call, taken as it is; \<open>mobile\<close> is the test of
  \<^verbatim>\<open>navigator.userAgent\<close>, as in \<^verbatim>\<open>initialize\<close>.
\<close>

datatype user_type = Authenticated | Guest

fun user_type_string :: "user_type \<Rightarrow> string" where
  "user_type_string Authenticated = ''Authenticated''"
| "user_type_string Guest = ''Guest''"

definition trackSessionStart :: "sink \<Rightarrow> bool \<Rightarrow> user_type \<Rightarrow> string \<Rightarrow> action" where
  "trackSessionStart sk mobile userType now =
     trackEvent sk SessionStarted
       [(''timestamp'', JStr now), (''user_type'', JStr (user_type_string userType)),
        (''platform'', JStr (platform mobile))] None now"

definition trackSessionEnd :: "sink \<Rightarrow> jsval \<Rightarrow> int \<Rightarrow> string \<Rightarrow> action" where
  "trackSessionEnd sk elapsed pagesVisited now =
     trackEvent sk SessionEnded
       [(''duration'', elapsed), (''pages_visited'', JNum pagesVisited)]
       None now"

definition trackDiscussionStart :: "sink \<Rightarrow> string \<Rightarrow> string \<Rightarrow> action" where
  "trackDiscussionStart sk decisionType now =
     trackEvent sk DiscussionStarted
       [(''decision_type'', JStr decisionType), (''timestamp'', JStr now)] None now"

definition trackDecisionComplete ::
  "sink \<Rightarrow> string \<Rightarrow> jsval \<Rightarrow> bool \<Rightarrow> string \<Rightarrow> action" where
  "trackDecisionComplete sk decisionType elapsed wasHelpful now =
     trackEvent sk DecisionCompleted
       [(''decision_type'', JStr decisionType), (''completion_time'', elapsed),
        (''was_helpful'', JBool wasHelpful)] None now"

definition trackSummaryView :: "sink \<Rightarrow> string \<Rightarrow> string \<Rightarrow> action" where
  "trackSummaryView sk fromStep now =
     trackEvent sk OpenedSummaryView [(''from_step'', JStr fromStep)] None now"

definition trackAbandonedDiscussion :: "sink \<Rightarrow> int \<Rightarrow> string \<Rightarrow> string \<Rightarrow> action" where
  "trackAbandonedDiscussion sk inactivityDuration currentStep now =
     trackEvent sk AbandonedDiscussion
       [(''inactivity_duration'', JNum inactivityDuration), (''current_step'', JStr currentStep)]
       None now"

definition trackAIInteraction :: "sink \<Rightarrow> string \<Rightarrow> string \<Rightarrow> int \<Rightarrow> string \<Rightarrow> action" where
  "trackAIInteraction sk model actionType responseTime now =
     trackEvent sk AIInteracted
       [(''model'', JStr model), (''action_type'', JStr actionType),
        (''response_time'', JNum responseTime)] None now"

definition trackClickedResponse :: "sink \<Rightarrow> string \<Rightarrow> int \<Rightarrow> string \<Rightarrow> action" where
  "trackClickedResponse sk model position now =
     trackEvent sk ClickedAIResponse [(''model'', JStr model), (''position'', JNum position)]
       None now"

definition trackProsAndConsGenerated :: "sink \<Rightarrow> string list \<Rightarrow> int \<Rightarrow> string \<Rightarrow> action" where
  "trackProsAndConsGenerated sk models elapsedTime now =
     trackEvent sk ProsAndConsGenerated
       [(''models_used'', JArr models), (''elapsed_time'', JNum elapsedTime)] None now"

definition trackFeedbackButtonClicked :: "sink \<Rightarrow> string \<Rightarrow> action" where
  "trackFeedbackButtonClicked sk now = trackEvent sk FeedbackButtonClicked [] None now"

definition trackFeedbackSubmission :: "sink \<Rightarrow> string \<Rightarrow> string \<Rightarrow> action" where
  "trackFeedbackSubmission sk feedbackText now =
     trackEvent sk FeedbackSubmitted [(''feedback_text'', JStr feedbackText)] None now"

section \<open>Runs of the module\<close>

text \<open>
  What happens to the module in one turn of the event loop: the host application calls one
  of the exported functions, or a pending timer fires.
\<close>

datatype op =
    InitMixpanel string bool
  | TrackEvent event_name jsobject "callback option" string
  | IdentifyUser string "jsobject option"
  | ResetUser
  | TimerFires nat

fun perform :: "sink \<Rightarrow> bool \<Rightarrow> op \<Rightarrow> action" where
  "perform sk mobile (InitMixpanel tok debug) = initMixpanel sk mobile tok debug"
| "perform sk mobile (TrackEvent eventName payload callback now) =
     trackEvent sk eventName payload callback now"
| "perform sk mobile (IdentifyUser userId userProperties) = identifyUser sk userId userProperties"
| "perform sk mobile ResetUser = resetUser sk"
| "perform sk mobile (TimerFires k) = fire_timer sk mobile k"

text \<open>
  A run performs the operations in order; what one of them throws goes to its own caller
  and the module's state stays as the operation left it.
\<close>

fun run :: "sink \<Rightarrow> bool \<Rightarrow> op list \<Rightarrow> state \<Rightarrow> state" where
  "run sk mobile [] s = s"
| "run sk mobile (x # xs) s = run sk mobile xs (snd (perform sk mobile x s))"

text \<open>The call on the sink that draining a queued entry makes.\<close>

definition track_of :: "queued \<Rightarrow> sink_call" where
  "track_of event = Track (name event) (props event) None"

text \<open>
  The arguments of one \<^verbatim>\<open>trackEvent\<close> call (event name, payload, callback, clock), the
  operation that makes the call, and the entry the call puts in the queue.
\<close>

type_synonym track_args = "event_name \<times> jsobject \<times> callback option \<times> string"

fun track_op :: "track_args \<Rightarrow> op" where
  "track_op (eventName, payload, callback, now) = TrackEvent eventName payload callback now"

fun queued_of :: "track_args \<Rightarrow> queued" where
  "queued_of (eventName, payload, callback, now) =
     \<lparr>name = name_string eventName, props = enrichedPayload eventName payload now\<rparr>"

text \<open>Sinks used as concrete inputs.\<close>

definition sink_never_throws :: sink where
  "sink_never_throws h c = False"

definition sink_always_throws :: sink where
  "sink_always_throws h c = True"

definition sink_track_throws :: sink where
  "sink_track_throws h c = (case c of Track n p cb \<Rightarrow> True | _ \<Rightarrow> False)"

text \<open>\<^verbatim>\<open>flushEventQueue\<close> invoked \<open>n\<close> times in a row.\<close>

fun flush_repeatedly :: "sink \<Rightarrow> nat \<Rightarrow> state \<Rightarrow> state" where
  "flush_repeatedly sk 0 s = s"
| "flush_repeatedly sk (Suc n) s = flush_repeatedly sk n (snd (flushEventQueue sk s))"

text \<open>A sink whose \<^verbatim>\<open>track\<close> throws for the events of one name and for nothing else.\<close>

definition sink_throws_on :: "string \<Rightarrow> sink" where
  "sink_throws_on n h c = (case c of Track m p cb \<Rightarrow> m = n | _ \<Rightarrow> False)"

text \<open>
  The state in which \<^verbatim>\<open>initialize\<close> calls \<^verbatim>\<open>flushEventQueue\<close>: the flag has just been
  set and the backlog \<open>q\<close> is still queued.
\<close>

definition backlog_state :: "queued list \<Rightarrow> state" where
  "backlog_state q = initial_state\<lparr>mixpanelInitialized := True, eventBackupQueue := q\<rparr>"

text \<open>A sink whose \<^verbatim>\<open>init\<close> throws at every call, and nothing else does.\<close>

definition sink_init_throws :: sink where
  "sink_init_throws h c = (case c of Init t d \<Rightarrow> True | _ \<Rightarrow> False)"

text \<open>How many times the module itself has invoked the caller's callback.\<close>

definition callback_calls :: "effect list \<Rightarrow> nat" where
  "callback_calls tr = length (filter (\<lambda>e. e = CallbackCall) tr)"

text \<open>
  Two calls on the sink are the same but for the \<^verbatim>\<open>debug\<close> option of \<^verbatim>\<open>init\<close> when
  \<open>blind\<close> maps them to the same call. A sink is blind to the option when what it throws
  does not depend on it.
\<close>

fun blind :: "sink_call \<Rightarrow> sink_call" where
  "blind (Init t d) = Init t False"
| "blind c = c"

definition debug_blind :: "sink \<Rightarrow> bool" where
  "debug_blind sk \<longleftrightarrow> (\<forall>h c. sk h c = sk (map blind h) (blind c))"

text \<open>Two operations that differ at most in the \<^verbatim>\<open>debug\<close> argument of \<^verbatim>\<open>initMixpanel\<close>.\<close>

fun same_but_debug :: "op \<Rightarrow> op \<Rightarrow> bool" where
  "same_but_debug (InitMixpanel t d) (InitMixpanel t' d') = (t = t')"
| "same_but_debug x y = (x = y)"

text \<open>The \<^verbatim>\<open>track\<close>, \<^verbatim>\<open>identify\<close>, \<^verbatim>\<open>people.set\<close> and \<^verbatim>\<open>reset\<close> calls of a trace.\<close>

fun is_tracking_call :: "sink_call \<Rightarrow> bool" where
  "is_tracking_call (Init t d) = False"
| "is_tracking_call (Register pl) = False"
| "is_tracking_call c = True"

definition tracking_calls :: "effect list \<Rightarrow> sink_call list" where
  "tracking_calls tr = filter is_tracking_call (sink_calls tr)"

text \<open>
  Two states agree when they differ at most in the debug flag, in the console lines and
  callback invocations of their traces, and in the \<^verbatim>\<open>debug\<close> option of the \<^verbatim>\<open>init\<close>
  calls made.
\<close>

definition agree :: "state \<Rightarrow> state \<Rightarrow> bool" where
  "agree s1 s2 \<longleftrightarrow>
     mixpanelInitialized s1 = mixpanelInitialized s2 \<and>
     eventBackupQueue s1 = eventBackupQueue s2 \<and>
     closures s1 = closures s2 \<and>
     timers s1 = timers s2 \<and>
     map blind (sink_calls (trace s1)) = map blind (sink_calls (trace s2))"

text \<open>
  The state after 50 \<^verbatim>\<open>trackEvent\<close> calls made when the module has just been loaded:
  Mixpanel is not initialized and the queue is full.
\<close>

definition at_capacity :: state where
  "at_capacity =
     run sink_never_throws False
       (map track_op (replicate 50 (FeedbackButtonClicked, [], None, ''t0''))) initial_state"

section \<open>Basic facts\<close>

lemma sink_calls_append [simp]: "sink_calls (xs @ ys) = sink_calls xs @ sink_calls ys"
  by (induction xs rule: sink_calls.induct) auto

lemma emit_fields [simp]:
  "mixpanelDebugMode (emit e s) = mixpanelDebugMode s"
  "mixpanelInitialized (emit e s) = mixpanelInitialized s"
  "eventBackupQueue (emit e s) = eventBackupQueue s"
  "closures (emit e s) = closures s"
  "timers (emit e s) = timers s"
  "trace (emit e s) = trace s @ [e]"
  by (simp_all add: emit_def)

lemma debug_log_fields [simp]:
  "mixpanelDebugMode (debug_log m s) = mixpanelDebugMode s"
  "mixpanelInitialized (debug_log m s) = mixpanelInitialized s"
  "eventBackupQueue (debug_log m s) = eventBackupQueue s"
  "closures (debug_log m s) = closures s"
  "timers (debug_log m s) = timers s"
  "sink_calls (trace (debug_log m s)) = sink_calls (trace s)"
  by (simp_all add: debug_log_def)

lemma flush_event_fst [simp]: "fst (flush_event sk event s) = None"
  by (simp add: flush_event_def try_catch_def call_sink_def ok_def)

lemma flush_event_fields [simp]:
  "mixpanelDebugMode (snd (flush_event sk event s)) = mixpanelDebugMode s"
  "mixpanelInitialized (snd (flush_event sk event s)) = mixpanelInitialized s"
  "eventBackupQueue (snd (flush_event sk event s)) = eventBackupQueue s"
  "closures (snd (flush_event sk event s)) = closures s"
  "timers (snd (flush_event sk event s)) = timers s"
  by (simp_all add: flush_event_def try_catch_def call_sink_def ok_def)

lemma flush_event_trace:
  "trace (snd (flush_event sk event s)) =
     trace s @ Sink (track_of event) #
       (if sk (sink_calls (trace s)) (track_of event)
        then [Console (ErrFlushFailed (name event))] else [])"
  by (simp add: flush_event_def try_catch_def call_sink_def ok_def track_of_def)

lemma flush_event_sink_calls [simp]:
  "sink_calls (trace (snd (flush_event sk event s))) = sink_calls (trace s) @ [track_of event]"
  by (simp add: flush_event_trace)

lemma flush_loop_Nil: "eventBackupQueue s = [] \<Longrightarrow> flush_loop sk s = (None, s)"
  by (subst flush_loop.simps) simp

lemma flush_loop_Cons:
  "eventBackupQueue s = event # rest \<Longrightarrow>
   flush_loop sk s = flush_loop sk (snd (flush_event sk event (s\<lparr>eventBackupQueue := rest\<rparr>)))"
  by (subst flush_loop.simps)
    (simp split: prod.splits option.splits, metis flush_event_fst fst_conv option.distinct(1))

lemma flush_loop_result:
  "fst (flush_loop sk s) = None \<and>
   eventBackupQueue (snd (flush_loop sk s)) = [] \<and>
   mixpanelDebugMode (snd (flush_loop sk s)) = mixpanelDebugMode s \<and>
   mixpanelInitialized (snd (flush_loop sk s)) = mixpanelInitialized s \<and>
   closures (snd (flush_loop sk s)) = closures s \<and>
   timers (snd (flush_loop sk s)) = timers s \<and>
   sink_calls (trace (snd (flush_loop sk s))) =
     sink_calls (trace s) @ map track_of (eventBackupQueue s)"
proof (induction "eventBackupQueue s" arbitrary: s)
  case Nil
  then show ?case by (simp add: flush_loop_Nil)
next
  case (Cons event rest)
  let ?s1 = "snd (flush_event sk event (s\<lparr>eventBackupQueue := rest\<rparr>))"
  have q: "rest = eventBackupQueue ?s1" by simp
  have step: "flush_loop sk s = flush_loop sk ?s1"
    using Cons.hyps(2)[symmetric] by (rule flush_loop_Cons)
  show ?case
    using Cons.hyps(1)[OF q] Cons.hyps(2)[symmetric] by (simp add: step)
qed

lemma flushEventQueue_result:
  "fst (flushEventQueue sk s) = None \<and>
   eventBackupQueue (snd (flushEventQueue sk s)) =
     (if mixpanelInitialized s then [] else eventBackupQueue s) \<and>
   mixpanelDebugMode (snd (flushEventQueue sk s)) = mixpanelDebugMode s \<and>
   mixpanelInitialized (snd (flushEventQueue sk s)) = mixpanelInitialized s \<and>
   closures (snd (flushEventQueue sk s)) = closures s \<and>
   timers (snd (flushEventQueue sk s)) = timers s \<and>
   sink_calls (trace (snd (flushEventQueue sk s))) =
     sink_calls (trace s) @ (if mixpanelInitialized s then map track_of (eventBackupQueue s) else [])"
  using flush_loop_result[of sk "debug_log (LogFlushing (length (eventBackupQueue s))) s"]
  by (auto simp: flushEventQueue_def and_then_def ok_def)

lemmas trackEvent_defs =
  trackEvent_def try_catch_def trackEvent_try_def and_then_def ok_def enqueue_def
  call_back_def invoke_def trackEvent_catch_def call_sink_def Let_def

lemma trackEvent_uninitialized:
  assumes "\<not> mixpanelInitialized s"
  shows "eventBackupQueue (snd (trackEvent sk e p cb now s)) =
           (if length (eventBackupQueue s) < MAX_QUEUE_SIZE
            then eventBackupQueue s @ [queued_of (e, p, cb, now)] else eventBackupQueue s)"
    and "mixpanelInitialized (snd (trackEvent sk e p cb now s)) = mixpanelInitialized s"
    and "mixpanelDebugMode (snd (trackEvent sk e p cb now s)) = mixpanelDebugMode s"
    and "closures (snd (trackEvent sk e p cb now s)) = closures s"
    and "timers (snd (trackEvent sk e p cb now s)) = timers s"
    and "sink_calls (trace (snd (trackEvent sk e p cb now s))) = sink_calls (trace s)"
  using assms by (auto simp: trackEvent_defs split: option.splits)

lemma run_append: "run sk mobile (xs @ ys) s = run sk mobile ys (run sk mobile xs s)"
  by (induction xs arbitrary: s) auto

lemma run_tracks_uninitialized:
  assumes "\<not> mixpanelInitialized s"
    and "length (eventBackupQueue s) + length calls \<le> MAX_QUEUE_SIZE"
  shows "eventBackupQueue (run sk mobile (map track_op calls) s) =
           eventBackupQueue s @ map queued_of calls \<and>
         mixpanelInitialized (run sk mobile (map track_op calls) s) = mixpanelInitialized s \<and>
         mixpanelDebugMode (run sk mobile (map track_op calls) s) = mixpanelDebugMode s \<and>
         closures (run sk mobile (map track_op calls) s) = closures s \<and>
         timers (run sk mobile (map track_op calls) s) = timers s \<and>
         sink_calls (trace (run sk mobile (map track_op calls) s)) = sink_calls (trace s)"
  using assms
proof (induction calls arbitrary: s)
  case Nil
  then show ?case by simp
next
  case (Cons c calls)
  obtain e p cb now where c: "c = (e, p, cb, now)" by (cases c) auto
  let ?s1 = "snd (trackEvent sk e p cb now s)"
  have lt: "length (eventBackupQueue s) < MAX_QUEUE_SIZE" using Cons.prems(2) by simp
  have q1: "eventBackupQueue ?s1 = eventBackupQueue s @ [queued_of c]"
    using trackEvent_uninitialized(1)[OF Cons.prems(1), of sk e p cb now] lt c by simp
  have i1: "\<not> mixpanelInitialized ?s1"
    using trackEvent_uninitialized(2)[OF Cons.prems(1)] Cons.prems(1) by simp
  have l1: "length (eventBackupQueue ?s1) + length calls \<le> MAX_QUEUE_SIZE"
    using Cons.prems(2) q1 by simp
  show ?case
    using Cons.IH[OF i1 l1] q1 trackEvent_uninitialized(2-6)[OF Cons.prems(1), of sk e p cb now]
    by (simp add: c)
qed

lemmas initialize_defs =
  initialize_def initialize_try_def try_catch_def and_then_def ok_def call_sink_def
  initialize_catch_def increment_retries_def setTimeout_def Let_def

lemma try_catch_returns: "fst (body s) = None \<Longrightarrow> try_catch body handler s = body s"
  by (cases "body s") (auto simp: try_catch_def)

lemma try_catch_throws:
  "fst (body s) \<noteq> None \<Longrightarrow> try_catch body handler s = handler (snd (body s))"
  by (cases "body s") (auto simp: try_catch_def)

lemma initialize_succeeds:
  assumes "\<not> sk (sink_calls (trace s)) (Init (token (closures s ! a)) (mixpanelDebugMode s))"
    and "\<not> sk (sink_calls (trace s) @ [Init (token (closures s ! a)) (mixpanelDebugMode s)])
            (Register (platform mobile))"
  shows "fst (initialize sk mobile a s) = None \<and>
         mixpanelInitialized (snd (initialize sk mobile a s)) \<and>
         eventBackupQueue (snd (initialize sk mobile a s)) = [] \<and>
         mixpanelDebugMode (snd (initialize sk mobile a s)) = mixpanelDebugMode s \<and>
         closures (snd (initialize sk mobile a s)) = closures s \<and>
         timers (snd (initialize sk mobile a s)) = timers s \<and>
         sink_calls (trace (snd (initialize sk mobile a s))) =
           sink_calls (trace s) @
           [Init (token (closures s ! a)) (mixpanelDebugMode s), Register (platform mobile)] @
           map track_of (eventBackupQueue s)"
proof -
  let ?s3 = "debug_log LogInitialized
      (emit (Sink (Register (platform mobile)))
         (emit (Sink (Init (token (closures s ! a)) (mixpanelDebugMode s)))
            (debug_log (LogInitializing (retries (closures s ! a) + 1)) s))
       \<lparr>mixpanelInitialized := True\<rparr>)"
  have "initialize_try sk mobile a s = flushEventQueue sk ?s3"
    using assms by (simp add: initialize_try_def and_then_def ok_def call_sink_def)
  then have "initialize sk mobile a s = flushEventQueue sk ?s3"
    using flushEventQueue_result[of sk ?s3] by (simp add: initialize_def try_catch_returns)
  then show ?thesis
    using flushEventQueue_result[of sk ?s3] by simp
qed

lemma initMixpanel_succeeds:
  assumes "\<not> sk (sink_calls (trace s)) (Init tok debug)"
    and "\<not> sk (sink_calls (trace s) @ [Init tok debug]) (Register (platform mobile))"
  shows "fst (initMixpanel sk mobile tok debug s) = None \<and>
         mixpanelInitialized (snd (initMixpanel sk mobile tok debug s)) \<and>
         eventBackupQueue (snd (initMixpanel sk mobile tok debug s)) = [] \<and>
         timers (snd (initMixpanel sk mobile tok debug s)) = timers s \<and>
         sink_calls (trace (snd (initMixpanel sk mobile tok debug s))) =
           sink_calls (trace s) @ [Init tok debug, Register (platform mobile)] @
           map track_of (eventBackupQueue s)"
  using assms
    initialize_succeeds[of sk "s\<lparr>mixpanelDebugMode := debug,
          closures := closures s @ [\<lparr>token = tok, retries = 0\<rparr>]\<rparr>" "length (closures s)" mobile]
  by (simp add: initMixpanel_def)

lemma track_of_queued_of:
  "track_of (queued_of (e, p, cb, now)) = Track (name_string e) (enrichedPayload e p now) None"
  by (simp add: track_of_def)

section \<open>Ordering of the drain\<close>

text \<open>
  Claim C1. Take any state in which Mixpanel is not initialized and any sequence of
  \<^verbatim>\<open>trackEvent\<close> calls that fits in the queue (the entries already queued and the new
  ones are at most 50). The calls reach no sink operation. When \<^verbatim>\<open>initMixpanel\<close> then
  succeeds (neither \<^verbatim>\<open>mixpanel.init\<close> nor \<^verbatim>\<open>mixpanel.register\<close> throws), the sink
  receives, after \<^verbatim>\<open>init\<close> and \<^verbatim>\<open>register\<close>, one \<^verbatim>\<open>track\<close> call for each queued
  entry and then one for each of the calls, with the enriched payload of the call, in the
  order in which the calls were made, whether or not \<^verbatim>\<open>track\<close> throws.
\<close>

theorem c1_fifo_drain:
  assumes "\<not> mixpanelInitialized s"
    and "length (eventBackupQueue s) + length calls \<le> MAX_QUEUE_SIZE"
    and "s1 = run sk mobile (map track_op calls) s"
    and "\<not> sk (sink_calls (trace s1)) (Init tok debug)"
    and "\<not> sk (sink_calls (trace s1) @ [Init tok debug]) (Register (platform mobile))"
  shows "sink_calls (trace s1) = sink_calls (trace s) \<and>
         sink_calls (trace (snd (initMixpanel sk mobile tok debug s1))) =
           sink_calls (trace s) @ [Init tok debug, Register (platform mobile)] @
           map track_of (eventBackupQueue s) @
           map (\<lambda>(e, p, cb, now). Track (name_string e) (enrichedPayload e p now) None) calls"
proof -
  have m: "map track_of (map queued_of calls) =
        map (\<lambda>(e, p, cb, now). Track (name_string e) (enrichedPayload e p now) None) calls"
    by (auto simp: track_of_def)
  show ?thesis
    using run_tracks_uninitialized[OF assms(1,2), of sk mobile]
      initMixpanel_succeeds[OF assms(4,5)] m
    by (simp add: assms(3))
qed

theorem c1_fifo_drain_witness:
  "\<not> mixpanelInitialized initial_state \<and>
   length (eventBackupQueue initial_state) +
     length [(FeedbackSubmitted, [(''feedback_text'', JStr ''great app'')], None, ''t1''),
             (SessionEnded, [(''duration'', JNum 5)], Some CbReturns, ''t2'')] \<le> MAX_QUEUE_SIZE \<and>
   sink_calls (trace (snd (initMixpanel sink_track_throws False ''tok'' True
     (run sink_track_throws False
        (map track_op
           [(FeedbackSubmitted, [(''feedback_text'', JStr ''great app'')], None, ''t1''),
            (SessionEnded, [(''duration'', JNum 5)], Some CbReturns, ''t2'')])
        initial_state)))) =
     [Init ''tok'' True, Register ''web'',
      Track ''FeedbackSubmitted''
        [(''feedback_text'', JStr ''great app''), (''event_category'', JStr ''Feedback''),
         (''timestamp'', JStr ''t1'')] None,
      Track ''SessionEnded''
        [(''duration'', JNum 5), (''event_category'', JStr ''Session''),
         (''timestamp'', JStr ''t2'')] None]"
proof -
  let ?calls = "[(FeedbackSubmitted, [(''feedback_text'', JStr ''great app'')], None, ''t1''),
             (SessionEnded, [(''duration'', JNum 5)], Some CbReturns, ''t2'')]"
  have h1: "\<not> mixpanelInitialized initial_state" by (simp add: initial_state_def)
  have h2: "length (eventBackupQueue initial_state) + length ?calls \<le> MAX_QUEUE_SIZE"
    by (simp add: initial_state_def MAX_QUEUE_SIZE_def)
  have h4: "\<not> sink_track_throws
     (sink_calls (trace (run sink_track_throws False (map track_op ?calls) initial_state)))
     (Init ''tok'' True)"
    by (simp add: sink_track_throws_def)
  have h5: "\<not> sink_track_throws
     (sink_calls (trace (run sink_track_throws False (map track_op ?calls) initial_state))
        @ [Init ''tok'' True])
     (Register (platform False))"
    by (simp add: sink_track_throws_def)
  show ?thesis
    using c1_fifo_drain[OF h1 h2 refl h4 h5] h1 h2
    by (simp add: initial_state_def enrichedPayload_def get_prop_def platform_def)
qed

section \<open>What each operation leaves behind\<close>

lemma trackEvent_initialized:
  assumes "mixpanelInitialized s"
  shows "fst (trackEvent sk e p cb now s) =
           (if sk (sink_calls (trace s)) (Track (name_string e) (enrichedPayload e p now) cb)
               \<and> cb = Some CbThrows
            then Some CallbackError else None)"
    and "eventBackupQueue (snd (trackEvent sk e p cb now s)) = eventBackupQueue s"
    and "mixpanelInitialized (snd (trackEvent sk e p cb now s)) = mixpanelInitialized s"
    and "mixpanelDebugMode (snd (trackEvent sk e p cb now s)) = mixpanelDebugMode s"
    and "closures (snd (trackEvent sk e p cb now s)) = closures s"
    and "timers (snd (trackEvent sk e p cb now s)) = timers s"
    and "sink_calls (trace (snd (trackEvent sk e p cb now s))) =
           sink_calls (trace s) @ [Track (name_string e) (enrichedPayload e p now) cb]"
  using assms by (auto simp: trackEvent_defs split: option.splits)

lemma trackEvent_uninitialized_fst:
  assumes "\<not> mixpanelInitialized s"
  shows "fst (trackEvent sk e p cb now s) =
           (if cb = Some CbThrows then Some CallbackError else None)"
  using assms by (auto simp: trackEvent_defs split: option.splits)

lemma trackEvent_returns:
  "cb \<noteq> Some CbThrows \<Longrightarrow> fst (trackEvent sk e p cb now s) = None"
  by (cases "mixpanelInitialized s")
    (simp_all add: trackEvent_initialized(1) trackEvent_uninitialized_fst)

lemmas identifyUser_defs =
  identifyUser_def identifyUser_try_def try_catch_def and_then_def ok_def call_sink_def

lemma identifyUser_result:
  "fst (identifyUser sk userId userProperties s) = None"
  "eventBackupQueue (snd (identifyUser sk userId userProperties s)) = eventBackupQueue s"
  "mixpanelInitialized (snd (identifyUser sk userId userProperties s)) = mixpanelInitialized s"
  "mixpanelDebugMode (snd (identifyUser sk userId userProperties s)) = mixpanelDebugMode s"
  "closures (snd (identifyUser sk userId userProperties s)) = closures s"
  "timers (snd (identifyUser sk userId userProperties s)) = timers s"
  "sink_calls (trace (snd (identifyUser sk userId userProperties s))) =
     sink_calls (trace s) @
     (if mixpanelInitialized s then
        Identify userId #
        (case userProperties of
           None \<Rightarrow> []
         | Some p \<Rightarrow> if sk (sink_calls (trace s)) (Identify userId) then [] else [PeopleSet p])
      else [])"
  by (auto simp: identifyUser_defs split: option.splits)

lemmas resetUser_defs =
  resetUser_def resetUser_try_def try_catch_def and_then_def ok_def call_sink_def

lemma resetUser_result:
  "fst (resetUser sk s) = None"
  "eventBackupQueue (snd (resetUser sk s)) = eventBackupQueue s"
  "mixpanelInitialized (snd (resetUser sk s)) = mixpanelInitialized s"
  "mixpanelDebugMode (snd (resetUser sk s)) = mixpanelDebugMode s"
  "closures (snd (resetUser sk s)) = closures s"
  "timers (snd (resetUser sk s)) = timers s"
  "sink_calls (trace (snd (resetUser sk s))) =
     sink_calls (trace s) @ (if mixpanelInitialized s then [Reset] else [])"
  by (auto simp: resetUser_defs)

lemma initialize_catch_fields:
  "mixpanelInitialized (initialize_catch a s) = mixpanelInitialized s"
  "eventBackupQueue (initialize_catch a s) = eventBackupQueue s"
  "mixpanelDebugMode (initialize_catch a s) = mixpanelDebugMode s"
  "sink_calls (trace (initialize_catch a s)) = sink_calls (trace s)"
  "closures (initialize_catch a s) =
     (if retries (closures s ! a) < MAX_RETRIES
      then (closures s)[a := (closures s ! a)\<lparr>retries := retries (closures s ! a) + 1\<rparr>]
      else closures s)"
  "timers (initialize_catch a s) =
     timers s @
     (if retries (closures s ! a) < MAX_RETRIES
      then [(a, 1000 * 2 ^ retries ((closures s)[a := (closures s ! a)\<lparr>retries := retries (closures s ! a) + 1\<rparr>] ! a))]
      else [])"
  by (simp_all add: initialize_catch_def increment_retries_def setTimeout_def Let_def)

lemma initialize_fails:
  assumes "sk (sink_calls (trace s)) (Init (token (closures s ! a)) (mixpanelDebugMode s)) \<or>
           sk (sink_calls (trace s) @ [Init (token (closures s ! a)) (mixpanelDebugMode s)])
              (Register (platform mobile))"
  shows "fst (initialize sk mobile a s) = None"
    and "mixpanelInitialized (snd (initialize sk mobile a s)) = mixpanelInitialized s"
    and "eventBackupQueue (snd (initialize sk mobile a s)) = eventBackupQueue s"
    and "mixpanelDebugMode (snd (initialize sk mobile a s)) = mixpanelDebugMode s"
    and "closures (snd (initialize sk mobile a s)) =
     (if retries (closures s ! a) < MAX_RETRIES
      then (closures s)[a := (closures s ! a)\<lparr>retries := retries (closures s ! a) + 1\<rparr>]
      else closures s)"
    and "timers (snd (initialize sk mobile a s)) =
     timers s @
     (if retries (closures s ! a) < MAX_RETRIES
      then [(a, 1000 * 2 ^ retries ((closures s)[a := (closures s ! a)\<lparr>retries := retries (closures s ! a) + 1\<rparr>] ! a))]
      else [])"
    and "sink_calls (trace (snd (initialize sk mobile a s))) =
     sink_calls (trace s) @
     (if sk (sink_calls (trace s)) (Init (token (closures s ! a)) (mixpanelDebugMode s))
      then [Init (token (closures s ! a)) (mixpanelDebugMode s)]
      else [Init (token (closures s ! a)) (mixpanelDebugMode s), Register (platform mobile)])"
proof -
  let ?I = "Init (token (closures s ! a)) (mixpanelDebugMode s)"
  let ?s0 = "debug_log (LogInitializing (retries (closures s ! a) + 1)) s"
  let ?sf = "if sk (sink_calls (trace s)) ?I then emit (Sink ?I) ?s0
             else emit (Sink (Register (platform mobile))) (emit (Sink ?I) ?s0)"
  have "initialize sk mobile a s = (None, initialize_catch a ?sf)"
    using assms
    by (auto simp: initialize_def initialize_try_def try_catch_def and_then_def ok_def
        call_sink_def)
  then have *: "fst (initialize sk mobile a s) = None"
    "snd (initialize sk mobile a s) = initialize_catch a ?sf" by simp_all
  show "fst (initialize sk mobile a s) = None" by (rule *(1))
  show "mixpanelInitialized (snd (initialize sk mobile a s)) = mixpanelInitialized s"
    by (simp add: *(2) initialize_catch_fields)
  show "eventBackupQueue (snd (initialize sk mobile a s)) = eventBackupQueue s"
    by (simp add: *(2) initialize_catch_fields)
  show "mixpanelDebugMode (snd (initialize sk mobile a s)) = mixpanelDebugMode s"
    by (simp add: *(2) initialize_catch_fields)
  show "closures (snd (initialize sk mobile a s)) =
     (if retries (closures s ! a) < MAX_RETRIES
      then (closures s)[a := (closures s ! a)\<lparr>retries := retries (closures s ! a) + 1\<rparr>]
      else closures s)"
    by (simp add: *(2) initialize_catch_fields)
  show "timers (snd (initialize sk mobile a s)) =
     timers s @
     (if retries (closures s ! a) < MAX_RETRIES
      then [(a, 1000 * 2 ^ retries ((closures s)[a := (closures s ! a)\<lparr>retries := retries (closures s ! a) + 1\<rparr>] ! a))]
      else [])"
    by (simp add: *(2) initialize_catch_fields)
  show "sink_calls (trace (snd (initialize sk mobile a s))) =
     sink_calls (trace s) @
     (if sk (sink_calls (trace s)) ?I then [?I] else [?I, Register (platform mobile)])"
    by (simp add: *(2) initialize_catch_fields)
qed

lemma initialize_queue_length:
  "length (eventBackupQueue (snd (initialize sk mobile a s))) \<le> length (eventBackupQueue s)"
  using initialize_succeeds[of sk s a mobile] initialize_fails(3)[of sk s a mobile]
  by (cases "sk (sink_calls (trace s)) (Init (token (closures s ! a)) (mixpanelDebugMode s)) \<or>
           sk (sink_calls (trace s) @ [Init (token (closures s ! a)) (mixpanelDebugMode s)])
              (Register (platform mobile))") auto

lemma perform_queue_bound:
  assumes "length (eventBackupQueue s) \<le> MAX_QUEUE_SIZE"
  shows "length (eventBackupQueue (snd (perform sk mobile x s))) \<le> MAX_QUEUE_SIZE"
proof (cases x)
  case (InitMixpanel tok debug)
  then show ?thesis
    using assms initialize_queue_length[of sk mobile "length (closures s)"
        "s\<lparr>mixpanelDebugMode := debug, closures := closures s @ [\<lparr>token = tok, retries = 0\<rparr>]\<rparr>"]
    by (simp add: initMixpanel_def)
next
  case (TrackEvent e p cb now)
  then show ?thesis
    using assms trackEvent_uninitialized(1)[of s sk e p cb now]
      trackEvent_initialized(2)[of s sk e p cb now]
    by (cases "mixpanelInitialized s") auto
next
  case (IdentifyUser userId userProperties)
  then show ?thesis using assms by (simp add: identifyUser_result)
next
  case ResetUser
  then show ?thesis using assms by (simp add: resetUser_result)
next
  case (TimerFires k)
  then show ?thesis
    using assms initialize_queue_length[of sk mobile "fst (timers s ! k)"
        "s\<lparr>timers := take k (timers s) @ drop (Suc k) (timers s)\<rparr>"]
    by (simp add: fire_timer_def)
qed

lemma run_queue_bound:
  "length (eventBackupQueue s) \<le> MAX_QUEUE_SIZE \<Longrightarrow>
   length (eventBackupQueue (run sk mobile ops s)) \<le> MAX_QUEUE_SIZE"
  by (induction ops arbitrary: s) (auto simp: perform_queue_bound)

section \<open>Capacity of the queue\<close>

text \<open>
  What holds of the capacity: \<^verbatim>\<open>MAX_QUEUE_SIZE\<close> is 50, and after any sequence of
  operations from the state in which the module is loaded the queue holds at most 50
  entries. A \<^verbatim>\<open>trackEvent\<close> call made while Mixpanel is not initialized and the queue
  holds 50 entries leaves the queue as it is, and nothing escapes from it when its callback
  (if any) returns. When 51 calls are made on an empty queue before \<^verbatim>\<open>initMixpanel\<close>
  succeeds, the sink receives \<^verbatim>\<open>track\<close> calls for the first 50 of them, in order, and
  none for the newest.
\<close>

theorem queue_capacity:
  "MAX_QUEUE_SIZE = 50 \<and>
   length (eventBackupQueue (run sk mobile ops initial_state)) \<le> MAX_QUEUE_SIZE \<and>
   (\<not> mixpanelInitialized s \<and> length (eventBackupQueue s) = MAX_QUEUE_SIZE \<longrightarrow>
      eventBackupQueue (snd (trackEvent sk e p cb now s)) = eventBackupQueue s \<and>
      (cb \<noteq> Some CbThrows \<longrightarrow> fst (trackEvent sk e p cb now s) = None)) \<and>
   (\<not> mixpanelInitialized s \<and> eventBackupQueue s = [] \<and> length calls = MAX_QUEUE_SIZE \<and>
    \<not> sk (sink_calls (trace s)) (Init tok debug) \<and>
    \<not> sk (sink_calls (trace s) @ [Init tok debug]) (Register (platform mobile)) \<longrightarrow>
      sink_calls (trace (snd (initMixpanel sk mobile tok debug
          (run sk mobile (map track_op (calls @ [x])) s)))) =
        sink_calls (trace s) @ [Init tok debug, Register (platform mobile)] @
        map (\<lambda>(e, p, cb, now). Track (name_string e) (enrichedPayload e p now) None) calls)"
proof -
  have A: "MAX_QUEUE_SIZE = 50" by (simp add: MAX_QUEUE_SIZE_def)
  have B: "length (eventBackupQueue (run sk mobile ops initial_state)) \<le> MAX_QUEUE_SIZE"
    by (rule run_queue_bound) (simp add: initial_state_def)
  have C: "eventBackupQueue (snd (trackEvent sk e p cb now s)) = eventBackupQueue s"
    if "\<not> mixpanelInitialized s" "length (eventBackupQueue s) = MAX_QUEUE_SIZE"
    using that by (simp add: trackEvent_uninitialized(1))
  have D: "fst (trackEvent sk e p cb now s) = None" if "cb \<noteq> Some CbThrows"
    using that by (rule trackEvent_returns)
  have E: "sink_calls (trace (snd (initMixpanel sk mobile tok debug
          (run sk mobile (map track_op (calls @ [x])) s)))) =
        sink_calls (trace s) @ [Init tok debug, Register (platform mobile)] @
        map (\<lambda>(e, p, cb, now). Track (name_string e) (enrichedPayload e p now) None) calls"
    if a: "\<not> mixpanelInitialized s" "eventBackupQueue s = []" "length calls = MAX_QUEUE_SIZE"
      "\<not> sk (sink_calls (trace s)) (Init tok debug)"
      "\<not> sk (sink_calls (trace s) @ [Init tok debug]) (Register (platform mobile))"
  proof -
    define s1 where "s1 = run sk mobile (map track_op calls) s"
    define s2 where "s2 = run sk mobile (map track_op (calls @ [x])) s"
    obtain e p cb now where x: "x = (e, p, cb, now)" by (cases x) auto
    have r1: "eventBackupQueue s1 = map queued_of calls" "\<not> mixpanelInitialized s1"
      "sink_calls (trace s1) = sink_calls (trace s)"
      using run_tracks_uninitialized[of s calls sk mobile] a by (simp_all add: s1_def)
    have s2: "s2 = snd (trackEvent sk e p cb now s1)"
      by (simp add: run_append x s1_def s2_def)
    have full: "\<not> length (eventBackupQueue s1) < MAX_QUEUE_SIZE" using r1(1) a by simp
    have r2: "eventBackupQueue s2 = map queued_of calls"
      "sink_calls (trace s2) = sink_calls (trace s)"
      using trackEvent_uninitialized(1,6)[OF r1(2), of sk e p cb now] full r1(1,3)
      by (simp_all add: s2)
    have m: "map track_of (map queued_of calls) =
          map (\<lambda>(e, p, cb, now). Track (name_string e) (enrichedPayload e p now) None) calls"
      by (auto simp: track_of_def)
    have i1: "\<not> sk (sink_calls (trace s2)) (Init tok debug)"
      and i2: "\<not> sk (sink_calls (trace s2) @ [Init tok debug]) (Register (platform mobile))"
      using a by (simp_all add: r2(2))
    have "sink_calls (trace (snd (initMixpanel sk mobile tok debug s2))) =
        sink_calls (trace s) @ [Init tok debug, Register (platform mobile)] @
        map (\<lambda>(e, p, cb, now). Track (name_string e) (enrichedPayload e p now) None) calls"
      using initMixpanel_succeeds[OF i1 i2] m by (simp only: r2)
    then show ?thesis by (simp only: s2_def)
  qed
  show ?thesis using A B C D E by blast
qed

theorem queue_capacity_example:
  "length (eventBackupQueue
     (run sink_always_throws False
        [TrackEvent FeedbackButtonClicked [] None ''t'', InitMixpanel ''tok'' True, TimerFires 0]
        initial_state)) \<le> MAX_QUEUE_SIZE \<and>
   \<not> mixpanelInitialized
       (initial_state\<lparr>eventBackupQueue := replicate 50 \<lparr>name = ''a'', props = []\<rparr>\<rparr>) \<and>
   length (eventBackupQueue
       (initial_state\<lparr>eventBackupQueue := replicate 50 \<lparr>name = ''a'', props = []\<rparr>\<rparr>)) =
     MAX_QUEUE_SIZE \<and>
   eventBackupQueue (snd (trackEvent sink_always_throws FeedbackSubmitted
       [(''feedback_text'', JStr ''newest'')] (Some CbReturns) ''t''
       (initial_state\<lparr>eventBackupQueue := replicate 50 \<lparr>name = ''a'', props = []\<rparr>\<rparr>))) =
     replicate 50 \<lparr>name = ''a'', props = []\<rparr> \<and>
   Some CbReturns \<noteq> Some CbThrows \<and>
   fst (trackEvent sink_always_throws FeedbackSubmitted
       [(''feedback_text'', JStr ''newest'')] (Some CbReturns) ''t''
       (initial_state\<lparr>eventBackupQueue := replicate 50 \<lparr>name = ''a'', props = []\<rparr>\<rparr>)) = None \<and>
   \<not> mixpanelInitialized initial_state \<and> eventBackupQueue initial_state = [] \<and>
   length (replicate 50 (FeedbackButtonClicked, [] :: jsobject, None :: callback option, ''t0'')) =
     MAX_QUEUE_SIZE \<and>
   sink_calls (trace (snd (initMixpanel sink_never_throws False ''tok'' False
       (run sink_never_throws False
          (map track_op (replicate 50 (FeedbackButtonClicked, [], None, ''t0'') @
             [(FeedbackSubmitted, [(''feedback_text'', JStr ''newest'')], None, ''t1'')]))
          initial_state)))) =
     [Init ''tok'' False, Register ''web''] @
     replicate 50 (Track ''FeedbackButtonClicked''
        [(''event_category'', JStr ''Feedback''), (''timestamp'', JStr ''t0'')] None)"
proof -
  let ?full = "initial_state\<lparr>eventBackupQueue := replicate 50 \<lparr>name = ''a'', props = []\<rparr>\<rparr>"
  have h1: "\<not> mixpanelInitialized ?full \<and> length (eventBackupQueue ?full) = MAX_QUEUE_SIZE"
    by (simp add: initial_state_def MAX_QUEUE_SIZE_def)
  have h2: "Some CbReturns \<noteq> Some CbThrows" by simp
  have h3: "\<not> mixpanelInitialized initial_state \<and> eventBackupQueue initial_state = [] \<and>
    length (replicate 50 (FeedbackButtonClicked, [] :: jsobject, None :: callback option, ''t0'')) =
      MAX_QUEUE_SIZE \<and>
    \<not> sink_never_throws (sink_calls (trace initial_state)) (Init ''tok'' False) \<and>
    \<not> sink_never_throws (sink_calls (trace initial_state) @ [Init ''tok'' False])
        (Register (platform False))"
    by (simp add: initial_state_def MAX_QUEUE_SIZE_def sink_never_throws_def)
  have a: "length (eventBackupQueue
     (run sink_always_throws False
        [TrackEvent FeedbackButtonClicked [] None ''t'', InitMixpanel ''tok'' True, TimerFires 0]
        initial_state)) \<le> MAX_QUEUE_SIZE"
    by (rule queue_capacity[THEN conjunct2, THEN conjunct1])
  have b: "eventBackupQueue (snd (trackEvent sink_always_throws FeedbackSubmitted
       [(''feedback_text'', JStr ''newest'')] (Some CbReturns) ''t'' ?full)) =
       eventBackupQueue ?full \<and>
     fst (trackEvent sink_always_throws FeedbackSubmitted
       [(''feedback_text'', JStr ''newest'')] (Some CbReturns) ''t'' ?full) = None"
    using queue_capacity[of sink_always_throws False "[]" ?full FeedbackSubmitted
        "[(''feedback_text'', JStr ''newest'')]" "Some CbReturns" "''t''",
        THEN conjunct2, THEN conjunct2, THEN conjunct1, THEN mp, OF h1] h2
    by simp
  have c: "sink_calls (trace (snd (initMixpanel sink_never_throws False ''tok'' False
       (run sink_never_throws False
          (map track_op (replicate 50 (FeedbackButtonClicked, [], None, ''t0'') @
             [(FeedbackSubmitted, [(''feedback_text'', JStr ''newest'')], None, ''t1'')]))
          initial_state)))) =
     sink_calls (trace initial_state) @ [Init ''tok'' False, Register (platform False)] @
     map (\<lambda>(e, p, cb, now). Track (name_string e) (enrichedPayload e p now) None)
       (replicate 50 (FeedbackButtonClicked, [], None :: callback option, ''t0''))"
  proof -
    note t = queue_capacity[of sink_never_throws False "[]" initial_state FeedbackSubmitted "[]" None "[]"
        "replicate 50 (FeedbackButtonClicked, [], None, ''t0'')" "''tok''" False
        "(FeedbackSubmitted, [(''feedback_text'', JStr ''newest'')], None, ''t1'')",
        THEN conjunct2, THEN conjunct2, THEN conjunct2]
    show ?thesis using t h3 by (rule mp)
  qed
  show ?thesis
    using a b c h1 h3
    by (simp add: initial_state_def enrichedPayload_def get_prop_def platform_def)
qed

lemma run_quiet_tracks:
  assumes "\<not> mixpanelInitialized s" and "\<not> mixpanelDebugMode s"
  shows "trace (run sk mobile (map track_op (replicate n (e, p, None, now))) s) = trace s"
  using assms
proof (induction n arbitrary: s)
  case 0
  then show ?case by simp
next
  case (Suc n)
  let ?s1 = "snd (trackEvent sk e p None now s)"
  have t: "trace ?s1 = trace s"
    using Suc.prems by (simp add: trackEvent_defs debug_log_def)
  have "\<not> mixpanelInitialized ?s1" "\<not> mixpanelDebugMode ?s1"
    using Suc.prems trackEvent_uninitialized(2,3)[OF Suc.prems(1), of sk e p None now]
    by simp_all
  then show ?case using Suc.IH[of ?s1] t by simp
qed

lemma at_capacity_fields:
  "\<not> mixpanelInitialized at_capacity"
  "length (eventBackupQueue at_capacity) = MAX_QUEUE_SIZE"
  "trace at_capacity = []"
proof -
  have i: "\<not> mixpanelInitialized initial_state" "\<not> mixpanelDebugMode initial_state"
    by (simp_all add: initial_state_def)
  have l: "length (eventBackupQueue initial_state) +
      length (replicate 50 (FeedbackButtonClicked, [] :: jsobject, None :: callback option, ''t0''))
        \<le> MAX_QUEUE_SIZE"
    by (simp add: initial_state_def MAX_QUEUE_SIZE_def)
  note r = run_tracks_uninitialized[OF i(1) l, of sink_never_throws False]
  show "\<not> mixpanelInitialized at_capacity"
    using r i(1) by (simp add: at_capacity_def)
  show "length (eventBackupQueue at_capacity) = MAX_QUEUE_SIZE"
    using r by (simp add: at_capacity_def initial_state_def MAX_QUEUE_SIZE_def)
  show "trace at_capacity = []"
    using run_quiet_tracks[OF i, of sink_never_throws False 50 FeedbackButtonClicked "[]" "''t0''"]
    by (simp add: at_capacity_def initial_state_def)
qed

text \<open>
  Claim C2. When 50 events have been queued before initialization (\<^verbatim>\<open>MAX_QUEUE_SIZE\<close> is
  50), a further \<^verbatim>\<open>trackEvent\<close> call whose callback throws leaves the queue as it is, so
  the newest event is dropped, but it does raise an exception: the callback is invoked
  after the drop, its throw leads to the \<^verbatim>\<open>catch\<close> block, which invokes it a second
  time, and the second exception escapes to the caller.
\<close>

theorem c2_throwing_callback_at_capacity:
  "MAX_QUEUE_SIZE = 50 \<and>
   \<not> mixpanelInitialized at_capacity \<and>
   length (eventBackupQueue at_capacity) = MAX_QUEUE_SIZE \<and>
   eventBackupQueue (snd (trackEvent sk e p (Some CbThrows) now at_capacity)) =
     eventBackupQueue at_capacity \<and>
   fst (trackEvent sk e p (Some CbThrows) now at_capacity) = Some CallbackError \<and>
   trace (snd (trackEvent sk e p (Some CbThrows) now at_capacity)) =
     [CallbackCall, Console (ErrTrackingFailed (name_string e)), CallbackCall]"
proof -
  note f = at_capacity_fields
  have full: "\<not> length (eventBackupQueue at_capacity) < MAX_QUEUE_SIZE"
    by (simp add: f(2))
  have q: "eventBackupQueue (snd (trackEvent sk e p (Some CbThrows) now at_capacity)) =
      eventBackupQueue at_capacity"
    using trackEvent_uninitialized(1)[OF f(1), of sk e p "Some CbThrows" now] full by simp
  have x: "fst (trackEvent sk e p (Some CbThrows) now at_capacity) = Some CallbackError"
    by (simp add: trackEvent_uninitialized_fst[OF f(1)])
  have t: "trace (snd (trackEvent sk e p (Some CbThrows) now at_capacity)) =
      [CallbackCall, Console (ErrTrackingFailed (name_string e)), CallbackCall]"
    using f(1) full by (simp add: trackEvent_defs f(3))
  show ?thesis
    using f(1,2) q x t by (simp add: MAX_QUEUE_SIZE_def)
qed

section \<open>No second delivery\<close>

lemma flush_repeatedly_empty:
  "eventBackupQueue s = [] \<Longrightarrow> flush_repeatedly sk n s = s"
  by (induction n) (simp_all add: flushEventQueue_def)

text \<open>
  Claim C3. However many times \<^verbatim>\<open>flushEventQueue\<close> is invoked in a row, the calls the
  sink has received afterwards are the ones it had received before, followed by exactly
  one \<^verbatim>\<open>track\<close> call for each queued entry when Mixpanel is initialized and there was at
  least one invocation, and by nothing otherwise: no queued entry is passed to the sink a
  second time.
\<close>

theorem c3_no_double_delivery:
  "sink_calls (trace (flush_repeatedly sk n s)) =
     sink_calls (trace s) @
     (if mixpanelInitialized s \<and> 0 < n then map track_of (eventBackupQueue s) else [])"
proof (cases n)
  case 0
  then show ?thesis by simp
next
  case (Suc m)
  show ?thesis
  proof (cases "mixpanelInitialized s")
    case True
    have "eventBackupQueue (snd (flushEventQueue sk s)) = []"
      using flushEventQueue_result[of sk s] True by simp
    then have "flush_repeatedly sk n s = snd (flushEventQueue sk s)"
      by (simp add: Suc flush_repeatedly_empty)
    then show ?thesis
      using flushEventQueue_result[of sk s] True Suc by simp
  next
    case False
    have "flush_repeatedly sk k s = s" for k
      using False by (induction k) (simp_all add: flushEventQueue_def)
    then show ?thesis using False by simp
  qed
qed

theorem c3_no_double_delivery_witness:
  "sink_calls (trace (flush_repeatedly sink_track_throws 3
      (backlog_state [\<lparr>name = ''a'', props = []\<rparr>, \<lparr>name = ''b'', props = []\<rparr>]))) =
     [Track ''a'' [] None, Track ''b'' [] None]"
  using c3_no_double_delivery[of sink_track_throws 3
      "backlog_state [\<lparr>name = ''a'', props = []\<rparr>, \<lparr>name = ''b'', props = []\<rparr>]"]
  by (simp add: backlog_state_def initial_state_def track_of_def)

section \<open>A failed delivery does not stop the drain\<close>

lemma flush_event_trace_mono: "set (trace s) \<subseteq> set (trace (snd (flush_event sk event s)))"
  by (auto simp: flush_event_trace)

lemma flush_loop_trace_mono: "set (trace s) \<subseteq> set (trace (snd (flush_loop sk s)))"
proof (induction "eventBackupQueue s" arbitrary: s)
  case Nil
  then show ?case by (simp add: flush_loop_Nil)
next
  case (Cons event rest)
  let ?s0 = "s\<lparr>eventBackupQueue := rest\<rparr>"
  let ?s1 = "snd (flush_event sk event ?s0)"
  have q: "rest = eventBackupQueue ?s1" by simp
  have step: "flush_loop sk s = flush_loop sk ?s1"
    using Cons.hyps(2)[symmetric] by (rule flush_loop_Cons)
  have "set (trace s) \<subseteq> set (trace ?s1)"
    using flush_event_trace_mono[of ?s0 sk event] by simp
  then show ?case
    using Cons.hyps(1)[OF q] by (auto simp: step)
qed

lemma flush_loop_logged:
  assumes "i < length (eventBackupQueue s)"
    and "sk (sink_calls (trace s) @ map track_of (take i (eventBackupQueue s)))
            (track_of (eventBackupQueue s ! i))"
  shows "Console (ErrFlushFailed (name (eventBackupQueue s ! i)))
           \<in> set (trace (snd (flush_loop sk s)))"
  using assms
proof (induction "eventBackupQueue s" arbitrary: s i)
  case Nil
  then show ?case by simp
next
  case (Cons event rest)
  let ?s0 = "s\<lparr>eventBackupQueue := rest\<rparr>"
  let ?s1 = "snd (flush_event sk event ?s0)"
  have q: "rest = eventBackupQueue ?s1" by simp
  have qs: "eventBackupQueue s = event # rest" using Cons.hyps(2) by simp
  have step: "flush_loop sk s = flush_loop sk ?s1"
    using qs by (rule flush_loop_Cons)
  show ?case
  proof (cases i)
    case 0
    then have "sk (sink_calls (trace s)) (track_of event)"
      using Cons.prems(2) qs by simp
    then have "Console (ErrFlushFailed (name event)) \<in> set (trace ?s1)"
      by (simp add: flush_event_trace)
    then show ?thesis
      using flush_loop_trace_mono[of ?s1 sk] 0 qs by (auto simp: step)
  next
    case (Suc j)
    have j: "j < length (eventBackupQueue ?s1)" using Cons.prems(1) qs Suc by simp
    have t: "sk (sink_calls (trace ?s1) @ map track_of (take j (eventBackupQueue ?s1)))
            (track_of (eventBackupQueue ?s1 ! j))"
      using Cons.prems(2) qs Suc by simp
    show ?thesis
      using Cons.hyps(1)[OF q j t] qs Suc by (simp add: step)
  qed
qed

text \<open>
  Claim C8. When Mixpanel is initialized, \<^verbatim>\<open>flushEventQueue\<close> returns without
  throwing and leaves the queue empty, whichever deliveries fail; every queued entry is
  offered to the sink's \<^verbatim>\<open>track\<close>, in order, once; and an entry for which \<^verbatim>\<open>track\<close>
  throws is logged with a console error (it is in the queue no more, so it is lost).
\<close>

theorem c8_drain_continues:
  assumes "mixpanelInitialized s"
  shows "fst (flushEventQueue sk s) = None \<and>
         eventBackupQueue (snd (flushEventQueue sk s)) = [] \<and>
         sink_calls (trace (snd (flushEventQueue sk s))) =
           sink_calls (trace s) @ map track_of (eventBackupQueue s) \<and>
         (\<forall>i < length (eventBackupQueue s).
            sk (sink_calls (trace s) @ map track_of (take i (eventBackupQueue s)))
               (track_of (eventBackupQueue s ! i)) \<longrightarrow>
            Console (ErrFlushFailed (name (eventBackupQueue s ! i)))
              \<in> set (trace (snd (flushEventQueue sk s))))"
proof -
  have logged: "Console (ErrFlushFailed (name (eventBackupQueue s ! i)))
              \<in> set (trace (snd (flushEventQueue sk s)))"
    if "i < length (eventBackupQueue s)"
      "sk (sink_calls (trace s) @ map track_of (take i (eventBackupQueue s)))
               (track_of (eventBackupQueue s ! i))" for i
  proof -
    let ?s0 = "debug_log (LogFlushing (length (eventBackupQueue s))) s"
    have ne: "eventBackupQueue s \<noteq> []" using that(1) by auto
    have "flushEventQueue sk s = flush_loop sk ?s0"
      using assms ne by (simp add: flushEventQueue_def and_then_def ok_def)
    then show ?thesis
      using flush_loop_logged[of i ?s0 sk] that by simp
  qed
  show ?thesis
    using flushEventQueue_result[of sk s] assms logged by simp
qed

theorem c8_drain_continues_witness:
  "mixpanelInitialized (backlog_state
      [\<lparr>name = ''a'', props = []\<rparr>, \<lparr>name = ''b'', props = []\<rparr>, \<lparr>name = ''c'', props = []\<rparr>]) \<and>
   fst (flushEventQueue (sink_throws_on ''b'') (backlog_state
      [\<lparr>name = ''a'', props = []\<rparr>, \<lparr>name = ''b'', props = []\<rparr>, \<lparr>name = ''c'', props = []\<rparr>])) = None \<and>
   eventBackupQueue (snd (flushEventQueue (sink_throws_on ''b'') (backlog_state
      [\<lparr>name = ''a'', props = []\<rparr>, \<lparr>name = ''b'', props = []\<rparr>, \<lparr>name = ''c'', props = []\<rparr>]))) = [] \<and>
   sink_calls (trace (snd (flushEventQueue (sink_throws_on ''b'') (backlog_state
      [\<lparr>name = ''a'', props = []\<rparr>, \<lparr>name = ''b'', props = []\<rparr>, \<lparr>name = ''c'', props = []\<rparr>])))) =
     [Track ''a'' [] None, Track ''b'' [] None, Track ''c'' [] None] \<and>
   sink_throws_on ''b'' [Track ''a'' [] None] (Track ''b'' [] None) \<and>
   Console (ErrFlushFailed ''b'') \<in> set (trace (snd (flushEventQueue (sink_throws_on ''b'')
     (backlog_state
      [\<lparr>name = ''a'', props = []\<rparr>, \<lparr>name = ''b'', props = []\<rparr>, \<lparr>name = ''c'', props = []\<rparr>]))))"
proof -
  let ?s = "backlog_state
      [\<lparr>name = ''a'', props = []\<rparr>, \<lparr>name = ''b'', props = []\<rparr>, \<lparr>name = ''c'', props = []\<rparr>]"
  have h: "mixpanelInitialized ?s" by (simp add: backlog_state_def)
  have q: "eventBackupQueue ?s =
      [\<lparr>name = ''a'', props = []\<rparr>, \<lparr>name = ''b'', props = []\<rparr>, \<lparr>name = ''c'', props = []\<rparr>]"
    by (simp add: backlog_state_def)
  have t: "sink_calls (trace ?s) = []" by (simp add: backlog_state_def initial_state_def)
  have thrown: "sink_throws_on ''b'' [Track ''a'' [] None] (Track ''b'' [] None)"
    by (simp add: sink_throws_on_def)
  note r = c8_drain_continues[OF h, of "sink_throws_on ''b''"]
  have logged: "Console (ErrFlushFailed ''b'') \<in> set (trace (snd (flushEventQueue
      (sink_throws_on ''b'') ?s)))"
    using r[THEN conjunct2, THEN conjunct2, THEN conjunct2, rule_format, of 1] thrown
    by (simp add: q t track_of_def)
  show ?thesis
    using r h thrown logged by (simp add: q t track_of_def)
qed

section \<open>Enrichment\<close>

lemma map_of_set_prop: "map_of (set_prop k v obj) = (map_of obj)(k \<mapsto> v)"
  by (induction obj) auto

lemma map_of_enrichedPayload:
  "map_of (enrichedPayload e p now) k =
     (if k = ''timestamp'' then
        Some (case map_of p ''timestamp'' of
                None \<Rightarrow> JStr now
              | Some v \<Rightarrow> if truthy v then v else JStr now)
      else if k = ''event_category'' then Some (JStr (category_value (EVENT_CATEGORIES e)))
      else map_of p k)"
  by (simp add: enrichedPayload_def map_of_set_prop get_prop_def split: option.splits)

text \<open>
  Claim C9. The payload that \<^verbatim>\<open>trackEvent\<close> builds has every field of the caller's
  payload with its value, except two: \<^verbatim>\<open>event_category\<close> is the catalog's category of
  the event name, whatever the caller supplied under that key, and \<^verbatim>\<open>timestamp\<close> is the
  caller's value when that value is present and truthy and the clock's string otherwise
  (when it is absent or falsy, the empty string for one). This payload is what the call
  queues when Mixpanel is not initialized and the queue has room, and what it passes to the
  sink's \<^verbatim>\<open>track\<close> when Mixpanel is initialized.
\<close>

theorem c9_enrichment_frame:
  "map_of (enrichedPayload e p now) k =
     (if k = ''timestamp'' then
        Some (case map_of p ''timestamp'' of
                None \<Rightarrow> JStr now
              | Some v \<Rightarrow> if truthy v then v else JStr now)
      else if k = ''event_category'' then Some (JStr (category_value (EVENT_CATEGORIES e)))
      else map_of p k) \<and>
   (\<not> mixpanelInitialized s \<and> length (eventBackupQueue s) < MAX_QUEUE_SIZE \<longrightarrow>
      eventBackupQueue (snd (trackEvent sk e p cb now s)) =
        eventBackupQueue s @ [\<lparr>name = name_string e, props = enrichedPayload e p now\<rparr>]) \<and>
   (mixpanelInitialized s \<longrightarrow>
      sink_calls (trace (snd (trackEvent sk e p cb now s))) =
        sink_calls (trace s) @ [Track (name_string e) (enrichedPayload e p now) cb])"
  using trackEvent_uninitialized(1)[of s sk e p cb now] trackEvent_initialized(7)[of s sk e p cb now]
  by (simp add: map_of_enrichedPayload)

theorem c9_enrichment_frame_witness:
  "map_of (enrichedPayload FeedbackSubmitted
      [(''timestamp'', JStr ''''), (''event_category'', JStr ''Mine''),
       (''feedback_text'', JStr ''hi'')] ''2025-03-01T10:00:00.000Z'') ''feedback_text'' =
     Some (JStr ''hi'') \<and>
   map_of (enrichedPayload FeedbackSubmitted
      [(''timestamp'', JStr ''''), (''event_category'', JStr ''Mine''),
       (''feedback_text'', JStr ''hi'')] ''2025-03-01T10:00:00.000Z'') ''event_category'' =
     Some (JStr ''Feedback'') \<and>
   map_of (enrichedPayload FeedbackSubmitted
      [(''timestamp'', JStr ''''), (''event_category'', JStr ''Mine''),
       (''feedback_text'', JStr ''hi'')] ''2025-03-01T10:00:00.000Z'') ''timestamp'' =
     Some (JStr ''2025-03-01T10:00:00.000Z'') \<and>
   \<not> mixpanelInitialized initial_state \<and>
   length (eventBackupQueue initial_state) < MAX_QUEUE_SIZE \<and>
   eventBackupQueue (snd (trackEvent sink_never_throws FeedbackSubmitted
      [(''timestamp'', JStr ''''), (''event_category'', JStr ''Mine''),
       (''feedback_text'', JStr ''hi'')] None ''2025-03-01T10:00:00.000Z'' initial_state)) =
     [\<lparr>name = ''FeedbackSubmitted'',
       props = [(''timestamp'', JStr ''2025-03-01T10:00:00.000Z''),
                (''event_category'', JStr ''Feedback''), (''feedback_text'', JStr ''hi'')]\<rparr>] \<and>
   mixpanelInitialized (backlog_state []) \<and>
   sink_calls (trace (snd (trackEvent sink_never_throws FeedbackSubmitted
      [(''timestamp'', JStr ''''), (''event_category'', JStr ''Mine''),
       (''feedback_text'', JStr ''hi'')] None ''2025-03-01T10:00:00.000Z'' (backlog_state [])))) =
     [Track ''FeedbackSubmitted''
        [(''timestamp'', JStr ''2025-03-01T10:00:00.000Z''),
         (''event_category'', JStr ''Feedback''), (''feedback_text'', JStr ''hi'')] None]"
proof -
  let ?p = "[(''timestamp'', JStr ''''), (''event_category'', JStr ''Mine''),
       (''feedback_text'', JStr ''hi'')]"
  let ?now = "''2025-03-01T10:00:00.000Z''"
  have h1: "\<not> mixpanelInitialized initial_state \<and>
      length (eventBackupQueue initial_state) < MAX_QUEUE_SIZE"
    by (simp add: initial_state_def MAX_QUEUE_SIZE_def)
  have h2: "mixpanelInitialized (backlog_state [])" by (simp add: backlog_state_def)
  have e: "enrichedPayload FeedbackSubmitted ?p ?now =
      [(''timestamp'', JStr ?now), (''event_category'', JStr ''Feedback''),
       (''feedback_text'', JStr ''hi'')]"
    by (simp add: enrichedPayload_def get_prop_def)
  have a: "map_of (enrichedPayload FeedbackSubmitted ?p ?now) ''feedback_text'' = Some (JStr ''hi'')"
    using c9_enrichment_frame[of FeedbackSubmitted ?p ?now "''feedback_text''", THEN conjunct1]
    by simp
  have b: "map_of (enrichedPayload FeedbackSubmitted ?p ?now) ''event_category'' =
      Some (JStr ''Feedback'')"
    using c9_enrichment_frame[of FeedbackSubmitted ?p ?now "''event_category''", THEN conjunct1]
    by simp
  have c: "map_of (enrichedPayload FeedbackSubmitted ?p ?now) ''timestamp'' = Some (JStr ?now)"
    using c9_enrichment_frame[of FeedbackSubmitted ?p ?now "''timestamp''", THEN conjunct1]
    by simp
  have d: "eventBackupQueue (snd (trackEvent sink_never_throws FeedbackSubmitted ?p None ?now
        initial_state)) =
      eventBackupQueue initial_state @
      [\<lparr>name = name_string FeedbackSubmitted, props = enrichedPayload FeedbackSubmitted ?p ?now\<rparr>]"
    by (rule c9_enrichment_frame[of FeedbackSubmitted ?p ?now "''x''" initial_state
          sink_never_throws None, THEN conjunct2, THEN conjunct1, THEN mp, OF h1])
  have f: "sink_calls (trace (snd (trackEvent sink_never_throws FeedbackSubmitted ?p None ?now
        (backlog_state [])))) =
      sink_calls (trace (backlog_state [])) @
      [Track (name_string FeedbackSubmitted) (enrichedPayload FeedbackSubmitted ?p ?now) None]"
    by (rule c9_enrichment_frame[of FeedbackSubmitted ?p ?now "''x''" "backlog_state []"
          sink_never_throws None, THEN conjunct2, THEN conjunct2, THEN mp, OF h2])
  show ?thesis
    using a b c d f h1 h2
    by (simp add: e initial_state_def backlog_state_def)
qed

section \<open>An event tracked before initialization\<close>

text \<open>
  Claim C7. \<^verbatim>\<open>trackEvent('FeedbackSubmitted', payload)\<close> with
  \<^verbatim>\<open>feedback_text: 'great app'\<close> in the payload, called while Mixpanel is not initialized
  and the queue is empty, queues the event and calls nothing on the sink. When
  \<^verbatim>\<open>initMixpanel\<close> then succeeds, the sink receives \<^verbatim>\<open>init\<close>, \<^verbatim>\<open>register\<close> and exactly
  one \<^verbatim>\<open>track\<close> call, for \<^verbatim>\<open>FeedbackSubmitted\<close>, whose payload has
  \<^verbatim>\<open>feedback_text: 'great app'\<close>, \<^verbatim>\<open>event_category: 'Feedback'\<close> and a \<^verbatim>\<open>timestamp\<close>:
  the caller's when the caller supplied a truthy one, the clock's string at the call when
  the caller supplied none.
\<close>

theorem c7_scenario_a:
  assumes "\<not> mixpanelInitialized s" and "eventBackupQueue s = []"
    and "map_of p ''feedback_text'' = Some (JStr ''great app'')"
    and "s1 = snd (trackEvent sk FeedbackSubmitted p cb now s)"
    and "\<not> sk (sink_calls (trace s)) (Init tok debug)"
    and "\<not> sk (sink_calls (trace s) @ [Init tok debug]) (Register (platform mobile))"
  shows "eventBackupQueue s1 =
           [\<lparr>name = ''FeedbackSubmitted'', props = enrichedPayload FeedbackSubmitted p now\<rparr>] \<and>
         sink_calls (trace s1) = sink_calls (trace s) \<and>
         sink_calls (trace (snd (initMixpanel sk mobile tok debug s1))) =
           sink_calls (trace s) @
           [Init tok debug, Register (platform mobile),
            Track ''FeedbackSubmitted'' (enrichedPayload FeedbackSubmitted p now) None] \<and>
         map_of (enrichedPayload FeedbackSubmitted p now) ''feedback_text'' =
           Some (JStr ''great app'') \<and>
         map_of (enrichedPayload FeedbackSubmitted p now) ''event_category'' =
           Some (JStr ''Feedback'') \<and>
         (\<exists>v. map_of (enrichedPayload FeedbackSubmitted p now) ''timestamp'' = Some v) \<and>
         (\<forall>v. map_of p ''timestamp'' = Some v \<and> truthy v \<longrightarrow>
            map_of (enrichedPayload FeedbackSubmitted p now) ''timestamp'' = Some v) \<and>
         (map_of p ''timestamp'' = None \<longrightarrow>
            map_of (enrichedPayload FeedbackSubmitted p now) ''timestamp'' = Some (JStr now))"
proof -
  have q1: "eventBackupQueue s1 =
      [\<lparr>name = ''FeedbackSubmitted'', props = enrichedPayload FeedbackSubmitted p now\<rparr>]"
    using trackEvent_uninitialized(1)[OF assms(1), of sk FeedbackSubmitted p cb now] assms(2,4)
    by (simp add: MAX_QUEUE_SIZE_def)
  have t1: "sink_calls (trace s1) = sink_calls (trace s)"
    using trackEvent_uninitialized(6)[OF assms(1), of sk FeedbackSubmitted p cb now] assms(4)
    by simp
  have i1: "\<not> sk (sink_calls (trace s1)) (Init tok debug)"
    and i2: "\<not> sk (sink_calls (trace s1) @ [Init tok debug]) (Register (platform mobile))"
    using assms(5,6) by (simp_all add: t1)
  have d: "sink_calls (trace (snd (initMixpanel sk mobile tok debug s1))) =
           sink_calls (trace s) @
           [Init tok debug, Register (platform mobile),
            Track ''FeedbackSubmitted'' (enrichedPayload FeedbackSubmitted p now) None]"
    using initMixpanel_succeeds[OF i1 i2] by (simp add: q1 t1 track_of_def)
  show ?thesis
    using q1 t1 d assms(3) by (simp add: map_of_enrichedPayload)
qed

theorem c7_scenario_a_witness:
  "\<not> mixpanelInitialized initial_state \<and> eventBackupQueue initial_state = [] \<and>
   map_of [(''feedback_text'', JStr ''great app'')] ''feedback_text'' = Some (JStr ''great app'') \<and>
   eventBackupQueue (snd (trackEvent sink_never_throws FeedbackSubmitted
       [(''feedback_text'', JStr ''great app'')] None ''2025-03-01T10:00:00.000Z''
       initial_state)) =
     [\<lparr>name = ''FeedbackSubmitted'',
       props = [(''feedback_text'', JStr ''great app''), (''event_category'', JStr ''Feedback''),
                (''timestamp'', JStr ''2025-03-01T10:00:00.000Z'')]\<rparr>] \<and>
   sink_calls (trace (snd (initMixpanel sink_never_throws False ''tok'' False
     (snd (trackEvent sink_never_throws FeedbackSubmitted
       [(''feedback_text'', JStr ''great app'')] None ''2025-03-01T10:00:00.000Z''
       initial_state))))) =
     [Init ''tok'' False, Register ''web'',
      Track ''FeedbackSubmitted''
        [(''feedback_text'', JStr ''great app''), (''event_category'', JStr ''Feedback''),
         (''timestamp'', JStr ''2025-03-01T10:00:00.000Z'')] None] \<and>
   map_of (enrichedPayload FeedbackSubmitted
       [(''feedback_text'', JStr ''great app''), (''timestamp'', JStr ''2024-12-31T23:59:59.000Z'')]
       ''2025-03-01T10:00:00.000Z'') ''timestamp'' = Some (JStr ''2024-12-31T23:59:59.000Z'')"
proof -
  let ?p = "[(''feedback_text'', JStr ''great app'')]"
  let ?now = "''2025-03-01T10:00:00.000Z''"
  have h1: "\<not> mixpanelInitialized initial_state" by (simp add: initial_state_def)
  have h2: "eventBackupQueue initial_state = []" by (simp add: initial_state_def)
  have h3: "map_of ?p ''feedback_text'' = Some (JStr ''great app'')" by simp
  have h5: "\<not> sink_never_throws (sink_calls (trace initial_state)) (Init ''tok'' False)"
    by (simp add: sink_never_throws_def)
  have h6: "\<not> sink_never_throws (sink_calls (trace initial_state) @ [Init ''tok'' False])
      (Register (platform False))"
    by (simp add: sink_never_throws_def)
  have e: "enrichedPayload FeedbackSubmitted ?p ?now =
      [(''feedback_text'', JStr ''great app''), (''event_category'', JStr ''Feedback''),
       (''timestamp'', JStr ?now)]"
    by (simp add: enrichedPayload_def get_prop_def)
  let ?p' = "[(''feedback_text'', JStr ''great app''),
      (''timestamp'', JStr ''2024-12-31T23:59:59.000Z'')]"
  have h3': "map_of ?p' ''feedback_text'' = Some (JStr ''great app'')" by simp
  have kept: "map_of (enrichedPayload FeedbackSubmitted ?p' ?now) ''timestamp'' =
      Some (JStr ''2024-12-31T23:59:59.000Z'')"
    using c7_scenario_a[OF h1 h2 h3' refl h5 h6, of None ?now] by simp
  show ?thesis
    using c7_scenario_a[OF h1 h2 h3 refl h5 h6, of None ?now] h1 h2 kept
    by (simp add: e initial_state_def platform_def)
qed

section \<open>Retries of the initialization\<close>

lemmas eval_defs =
  initMixpanel_def initialize_def initialize_try_def initialize_catch_def increment_retries_def
  setTimeout_def fire_timer_def try_catch_def and_then_def ok_def call_sink_def debug_log_def
  emit_def flushEventQueue_def Let_def

text \<open>
  Claim C4. With a sink whose \<^verbatim>\<open>init\<close> throws at every call, \<^verbatim>\<open>initMixpanel\<close> and the
  timers it schedules call \<^verbatim>\<open>init\<close> four times, not three: after the third failed call a
  timer of 8000 ms is pending, its firing makes the fourth call, and only then no timer is
  left, Mixpanel is not initialized, and the last console line is the one that reads
  "failed after 3 attempts" (\<^verbatim>\<open>MAX_RETRIES\<close> is 3).
\<close>

theorem c4_four_attempts:
  "MAX_RETRIES = 3 \<and>
   sink_calls (trace (run sink_init_throws mobile
      [InitMixpanel tok debug, TimerFires 0, TimerFires 0] initial_state)) =
     [Init tok debug, Init tok debug, Init tok debug] \<and>
   timers (run sink_init_throws mobile
      [InitMixpanel tok debug, TimerFires 0, TimerFires 0] initial_state) = [(0, 8000)] \<and>
   sink_calls (trace (run sink_init_throws mobile
      [InitMixpanel tok debug, TimerFires 0, TimerFires 0, TimerFires 0] initial_state)) =
     [Init tok debug, Init tok debug, Init tok debug, Init tok debug] \<and>
   timers (run sink_init_throws mobile
      [InitMixpanel tok debug, TimerFires 0, TimerFires 0, TimerFires 0] initial_state) = [] \<and>
   last (trace (run sink_init_throws mobile
      [InitMixpanel tok debug, TimerFires 0, TimerFires 0, TimerFires 0] initial_state)) =
     Console (ErrInitGaveUp 3) \<and>
   \<not> mixpanelInitialized (run sink_init_throws mobile
      [InitMixpanel tok debug, TimerFires 0, TimerFires 0, TimerFires 0] initial_state)"
  by (cases debug)
    (simp_all add: eval_defs sink_init_throws_def initial_state_def MAX_RETRIES_def)

text \<open>
  Claim C5, as the claim states it, fails: after the first failed attempt (the retry
  counter was 0) the timer that is pending does not have the delay \<open>1000 * 2 ^ 0\<close>.
\<close>

theorem c5_counterexample:
  "timers (snd (initMixpanel sink_init_throws False ''tok'' False initial_state)) \<noteq>
     [(0, 1000 * 2 ^ 0)]"
  by (simp add: eval_defs sink_init_throws_def initial_state_def MAX_RETRIES_def)

text \<open>
  Claim C5, amended. When an attempt of \<^verbatim>\<open>initialize\<close> fails (\<^verbatim>\<open>init\<close> or \<^verbatim>\<open>register\<close>
  throws) and the retry counter of its closure is below \<^verbatim>\<open>MAX_RETRIES\<close>, which is 3, the
  counter is incremented first and the retry is scheduled with a delay of 1000 times 2 to
  the power of the incremented counter, in milliseconds: 2000 after the first failure.
\<close>

theorem c5_backoff:
  assumes "a < length (closures s)"
    and "retries (closures s ! a) < MAX_RETRIES"
    and "sk (sink_calls (trace s)) (Init (token (closures s ! a)) (mixpanelDebugMode s)) \<or>
         sk (sink_calls (trace s) @ [Init (token (closures s ! a)) (mixpanelDebugMode s)])
            (Register (platform mobile))"
  shows "MAX_RETRIES = 3 \<and>
         retries (closures (snd (initialize sk mobile a s)) ! a) = retries (closures s ! a) + 1 \<and>
         timers (snd (initialize sk mobile a s)) =
           timers s @ [(a, 1000 * 2 ^ (retries (closures s ! a) + 1))]"
  using initialize_fails(5,6)[OF assms(3)] assms(1,2)
  by (simp add: MAX_RETRIES_def)

theorem c5_backoff_witness:
  "(0::nat) < length (closures (initial_state\<lparr>closures := [\<lparr>token = ''tok'', retries = 0\<rparr>]\<rparr>)) \<and>
   retries (closures (initial_state\<lparr>closures := [\<lparr>token = ''tok'', retries = 0\<rparr>]\<rparr>) ! 0)
     < MAX_RETRIES \<and>
   sink_init_throws [] (Init ''tok'' False) \<and>
   retries (closures (snd (initialize sink_init_throws False 0
      (initial_state\<lparr>closures := [\<lparr>token = ''tok'', retries = 0\<rparr>]\<rparr>))) ! 0) = 1 \<and>
   timers (snd (initialize sink_init_throws False 0
      (initial_state\<lparr>closures := [\<lparr>token = ''tok'', retries = 0\<rparr>]\<rparr>))) = [(0, 2000)]"
proof -
  let ?s = "initial_state\<lparr>closures := [\<lparr>token = ''tok'', retries = 0\<rparr>]\<rparr>"
  have h1: "0 < length (closures ?s)" by simp
  have h2: "retries (closures ?s ! 0) < MAX_RETRIES" by (simp add: MAX_RETRIES_def)
  have t: "sink_init_throws [] (Init ''tok'' False)" by (simp add: sink_init_throws_def)
  have h3: "sink_init_throws (sink_calls (trace ?s))
        (Init (token (closures ?s ! 0)) (mixpanelDebugMode ?s)) \<or>
      sink_init_throws (sink_calls (trace ?s) @
        [Init (token (closures ?s ! 0)) (mixpanelDebugMode ?s)]) (Register (platform False))"
    by (simp add: sink_init_throws_def)
  show ?thesis
    using c5_backoff[OF h1 h2 h3] h1 h2 t by (simp add: initial_state_def)
qed

section \<open>The caller's callback\<close>

text \<open>
  Claim C6. A \<^verbatim>\<open>trackEvent\<close> call made when the module has just been loaded, with a
  callback that throws, invokes the callback twice (once after queueing, once more in the
  \<^verbatim>\<open>catch\<close> block that the first throw leads to) and lets the second exception escape
  to the caller.
\<close>

theorem c6_throwing_callback:
  "fst (trackEvent sk e p (Some CbThrows) now initial_state) = Some CallbackError \<and>
   trace (snd (trackEvent sk e p (Some CbThrows) now initial_state)) =
     [CallbackCall, Console (ErrTrackingFailed (name_string e)), CallbackCall] \<and>
   callback_calls (trace (snd (trackEvent sk e p (Some CbThrows) now initial_state))) = 2"
  by (simp add: trackEvent_defs initial_state_def debug_log_def emit_def MAX_QUEUE_SIZE_def
      callback_calls_def)

text \<open>
  With a callback that returns, and with none, nothing escapes from \<^verbatim>\<open>trackEvent\<close>
  (\<open>trackEvent_returns\<close>), from \<^verbatim>\<open>identifyUser\<close> and \<^verbatim>\<open>resetUser\<close>
  (\<open>identifyUser_result\<close>, \<open>resetUser_result\<close>) or from the helpers, whatever the sink
  throws; and the module invokes the callback once, except when it has handed it to a
  \<^verbatim>\<open>track\<close> call that returned.
\<close>

lemma trackEvent_callback_once:
  "callback_calls (trace (snd (trackEvent sk e p (Some CbReturns) now s))) =
     callback_calls (trace s) +
     (if mixpanelInitialized s \<and>
         \<not> sk (sink_calls (trace s)) (Track (name_string e) (enrichedPayload e p now) (Some CbReturns))
      then 0 else 1)"
  by (simp add: trackEvent_defs debug_log_def emit_def callback_calls_def)

lemma helpers_return:
  "fst (trackSessionStart sk mobile userType now s) = None"
  "fst (trackSessionEnd sk elapsed pagesVisited now s) = None"
  "fst (trackDiscussionStart sk decisionType now s) = None"
  "fst (trackDecisionComplete sk decisionType elapsed wasHelpful now s) = None"
  "fst (trackSummaryView sk fromStep now s) = None"
  "fst (trackAbandonedDiscussion sk inactivityDuration currentStep now s) = None"
  "fst (trackAIInteraction sk model actionType responseTime now s) = None"
  "fst (trackClickedResponse sk model position now s) = None"
  "fst (trackProsAndConsGenerated sk models elapsedTime now s) = None"
  "fst (trackFeedbackButtonClicked sk now s) = None"
  "fst (trackFeedbackSubmission sk feedbackText now s) = None"
  by (simp_all add: trackSessionStart_def trackSessionEnd_def trackDiscussionStart_def
      trackDecisionComplete_def trackSummaryView_def trackAbandonedDiscussion_def
      trackAIInteraction_def trackClickedResponse_def trackProsAndConsGenerated_def
      trackFeedbackButtonClicked_def trackFeedbackSubmission_def trackEvent_returns)

section \<open>The debug flag\<close>

lemma blind_sink:
  assumes "debug_blind sk" and "map blind h1 = map blind h2" and "blind c1 = blind c2"
  shows "sk h1 c1 = sk h2 c2"
proof -
  have "sk h1 c1 = sk (map blind h1) (blind c1)" using assms(1) by (simp add: debug_blind_def)
  also have "\<dots> = sk (map blind h2) (blind c2)" by (simp add: assms(2,3))
  also have "\<dots> = sk h2 c2" using assms(1) by (simp add: debug_blind_def)
  finally show ?thesis .
qed

lemma blind_track_of [simp]: "blind (track_of q) = track_of q"
  by (simp add: track_of_def)

lemma tracking_calls_blind:
  "filter is_tracking_call (map blind cs) = filter is_tracking_call cs"
proof (induction cs)
  case Nil
  then show ?case by simp
next
  case (Cons c cs)
  then show ?case by (cases c) simp_all
qed

lemma agree_tracking_calls:
  assumes "agree s1 s2"
  shows "tracking_calls (trace s1) = tracking_calls (trace s2)"
proof -
  have "filter is_tracking_call (map blind (sink_calls (trace s1))) =
        filter is_tracking_call (map blind (sink_calls (trace s2)))"
    using assms by (simp add: agree_def)
  then show ?thesis by (simp add: tracking_calls_def tracking_calls_blind)
qed

lemma initialize_agree:
  assumes sk: "debug_blind sk" and ag: "agree s1 s2"
  shows "agree (snd (initialize sk mobile a s1)) (snd (initialize sk mobile a s2))"
proof -
  let ?I1 = "Init (token (closures s1 ! a)) (mixpanelDebugMode s1)"
  let ?I2 = "Init (token (closures s2 ! a)) (mixpanelDebugMode s2)"
  let ?R = "Register (platform mobile)"
  let ?h1 = "sink_calls (trace s1)"
  let ?h2 = "sink_calls (trace s2)"
  have cl: "closures s1 = closures s2" and h: "map blind ?h1 = map blind ?h2"
    using ag by (simp_all add: agree_def)
  have bI: "blind ?I1 = blind ?I2" by (simp add: cl)
  have eI: "sk ?h1 ?I1 = sk ?h2 ?I2" using sk h bI by (rule blind_sink)
  have eR: "sk (?h1 @ [?I1]) ?R = sk (?h2 @ [?I2]) ?R"
    using sk by (rule blind_sink) (simp_all add: h cl)
  show ?thesis
  proof (cases "sk ?h1 ?I1 \<or> sk (?h1 @ [?I1]) ?R")
    case True
    then have f2: "sk ?h2 ?I2 \<or> sk (?h2 @ [?I2]) ?R" using eI eR by simp
    show ?thesis
      using ag eI bI
      unfolding agree_def initialize_fails(2,3,5,6,7)[OF True] initialize_fails(2,3,5,6,7)[OF f2]
      by (simp add: cl)
  next
    case False
    then have o1: "\<not> sk ?h1 ?I1" "\<not> sk (?h1 @ [?I1]) ?R" by simp_all
    then have o2: "\<not> sk ?h2 ?I2" "\<not> sk (?h2 @ [?I2]) ?R" using eI eR by simp_all
    show ?thesis
      using ag bI initialize_succeeds[OF o1] initialize_succeeds[OF o2]
      by (simp add: agree_def)
  qed
qed

lemma perform_agree:
  assumes sk: "debug_blind sk" and ag: "agree s1 s2" and xy: "same_but_debug x y"
  shows "agree (snd (perform sk mobile x s1)) (snd (perform sk mobile y s2))"
proof (cases x)
  case (InitMixpanel tok d)
  then obtain d' where y: "y = InitMixpanel tok d'" using xy by (cases y) auto
  let ?c = "\<lparr>token = tok, retries = 0\<rparr>"
  have "agree (s1\<lparr>mixpanelDebugMode := d, closures := closures s1 @ [?c]\<rparr>)
              (s2\<lparr>mixpanelDebugMode := d', closures := closures s2 @ [?c]\<rparr>)"
    using ag by (simp add: agree_def)
  then show ?thesis
    using initialize_agree[OF sk, of _ _ mobile "length (closures s1)"] ag
    by (simp add: InitMixpanel y initMixpanel_def agree_def)
next
  case (TrackEvent e p cb now)
  then have y: "y = x" using xy by simp
  show ?thesis
  proof (cases "mixpanelInitialized s1")
    case True
    then have i2: "mixpanelInitialized s2" using ag by (simp add: agree_def)
    show ?thesis
      using ag by (simp add: y TrackEvent agree_def trackEvent_initialized[OF True]
          trackEvent_initialized[OF i2])
  next
    case False
    then have i2: "\<not> mixpanelInitialized s2" using ag by (simp add: agree_def)
    show ?thesis
      using ag by (simp add: y TrackEvent agree_def trackEvent_uninitialized[OF False]
          trackEvent_uninitialized[OF i2])
  qed
next
  case (IdentifyUser userId userProperties)
  then have y: "y = x" using xy by simp
  have "sk (sink_calls (trace s1)) (Identify userId) = sk (sink_calls (trace s2)) (Identify userId)"
    using sk by (rule blind_sink) (use ag in \<open>simp_all add: agree_def\<close>)
  then show ?thesis
    using ag by (simp add: y IdentifyUser agree_def identifyUser_result split: option.splits)
next
  case ResetUser
  then have y: "y = x" using xy by simp
  show ?thesis
    using ag by (simp add: y ResetUser agree_def resetUser_result)
next
  case (TimerFires k)
  then have y: "y = x" using xy by simp
  have tm: "timers s1 = timers s2" using ag by (simp add: agree_def)
  have "agree (s1\<lparr>timers := take k (timers s1) @ drop (Suc k) (timers s1)\<rparr>)
              (s2\<lparr>timers := take k (timers s2) @ drop (Suc k) (timers s2)\<rparr>)"
    using ag by (simp add: agree_def)
  then show ?thesis
    using initialize_agree[OF sk, of _ _ mobile "fst (timers s1 ! k)"] ag
    by (simp add: y TimerFires fire_timer_def tm)
qed

lemma run_agree:
  assumes "debug_blind sk" and "list_all2 same_but_debug ops1 ops2" and "agree s1 s2"
  shows "agree (run sk mobile ops1 s1) (run sk mobile ops2 s2)"
  using assms(2,3)
proof (induction ops1 ops2 arbitrary: s1 s2 rule: list_all2_induct)
  case Nil
  then show ?case by simp
next
  case (Cons x xs y ys)
  then show ?case using perform_agree[OF assms(1)] by simp
qed

text \<open>
  Claim C10. Take a sink for which what a call throws does not depend on the \<^verbatim>\<open>debug\<close>
  option given to \<^verbatim>\<open>init\<close>, and two sequences of operations (calls of \<^verbatim>\<open>initMixpanel\<close>,
  \<^verbatim>\<open>trackEvent\<close>, \<^verbatim>\<open>identifyUser\<close>, \<^verbatim>\<open>resetUser\<close>, and firings of timers) that differ
  only in the \<^verbatim>\<open>debug\<close> arguments of \<^verbatim>\<open>initMixpanel\<close>. Run from the same state, after
  every number \<open>n\<close> of steps the two runs have the same queue, have made the same
  \<^verbatim>\<open>track\<close>, \<^verbatim>\<open>identify\<close>, \<^verbatim>\<open>people.set\<close> and \<^verbatim>\<open>reset\<close> calls in the same order, and
  have the same initialization flag and pending timers.
\<close>

theorem c10_debug_noninterference:
  assumes "debug_blind sk" and "list_all2 same_but_debug ops1 ops2"
  shows "eventBackupQueue (run sk mobile (take n ops1) s) =
           eventBackupQueue (run sk mobile (take n ops2) s) \<and>
         tracking_calls (trace (run sk mobile (take n ops1) s)) =
           tracking_calls (trace (run sk mobile (take n ops2) s)) \<and>
         mixpanelInitialized (run sk mobile (take n ops1) s) =
           mixpanelInitialized (run sk mobile (take n ops2) s) \<and>
         timers (run sk mobile (take n ops1) s) = timers (run sk mobile (take n ops2) s)"
proof -
  have "list_all2 same_but_debug (take n ops1) (take n ops2)"
    using assms(2) by (rule list_all2_takeI)
  moreover have "agree s s" by (simp add: agree_def)
  ultimately have ag: "agree (run sk mobile (take n ops1) s) (run sk mobile (take n ops2) s)"
    using assms(1) run_agree by blast
  show ?thesis
    using ag agree_tracking_calls[OF ag] by (simp add: agree_def)
qed

lemma debug_blind_sink_track_throws: "debug_blind sink_track_throws"
  unfolding debug_blind_def sink_track_throws_def
proof (intro allI)
  fix h c
  show "(case c of Track n p cb \<Rightarrow> True | _ \<Rightarrow> False) =
        (case blind c of Track n p cb \<Rightarrow> True | _ \<Rightarrow> False)"
    by (cases c) simp_all
qed

theorem c10_debug_noninterference_witness:
  "debug_blind sink_track_throws \<and>
   list_all2 same_but_debug
     [TrackEvent FeedbackButtonClicked [] None ''t'', InitMixpanel ''tok'' True,
      IdentifyUser ''u1'' (Some [(''email'', JStr ''a@b.com'')]), ResetUser]
     [TrackEvent FeedbackButtonClicked [] None ''t'', InitMixpanel ''tok'' False,
      IdentifyUser ''u1'' (Some [(''email'', JStr ''a@b.com'')]), ResetUser] \<and>
   tracking_calls (trace (run sink_track_throws False (take 4
     [TrackEvent FeedbackButtonClicked [] None ''t'', InitMixpanel ''tok'' True,
      IdentifyUser ''u1'' (Some [(''email'', JStr ''a@b.com'')]), ResetUser]) initial_state)) =
   tracking_calls (trace (run sink_track_throws False (take 4
     [TrackEvent FeedbackButtonClicked [] None ''t'', InitMixpanel ''tok'' False,
      IdentifyUser ''u1'' (Some [(''email'', JStr ''a@b.com'')]), ResetUser]) initial_state)) \<and>
   tracking_calls (trace (run sink_track_throws False (take 4
     [TrackEvent FeedbackButtonClicked [] None ''t'', InitMixpanel ''tok'' False,
      IdentifyUser ''u1'' (Some [(''email'', JStr ''a@b.com'')]), ResetUser]) initial_state)) =
     [Track ''FeedbackButtonClicked''
        [(''event_category'', JStr ''Feedback''), (''timestamp'', JStr ''t'')] None,
      Identify ''u1'', PeopleSet [(''email'', JStr ''a@b.com'')], Reset] \<and>
   eventBackupQueue (run sink_track_throws False (take 1
     [TrackEvent FeedbackButtonClicked [] None ''t'', InitMixpanel ''tok'' True,
      IdentifyUser ''u1'' (Some [(''email'', JStr ''a@b.com'')]), ResetUser]) initial_state) =
   eventBackupQueue (run sink_track_throws False (take 1
     [TrackEvent FeedbackButtonClicked [] None ''t'', InitMixpanel ''tok'' False,
      IdentifyUser ''u1'' (Some [(''email'', JStr ''a@b.com'')]), ResetUser]) initial_state)"
proof -
  let ?ops1 = "[TrackEvent FeedbackButtonClicked [] None ''t'', InitMixpanel ''tok'' True,
      IdentifyUser ''u1'' (Some [(''email'', JStr ''a@b.com'')]), ResetUser]"
  let ?ops2 = "[TrackEvent FeedbackButtonClicked [] None ''t'', InitMixpanel ''tok'' False,
      IdentifyUser ''u1'' (Some [(''email'', JStr ''a@b.com'')]), ResetUser]"
  have h1: "debug_blind sink_track_throws" by (rule debug_blind_sink_track_throws)
  have h2: "list_all2 same_but_debug ?ops1 ?ops2" by simp
  have e: "tracking_calls (trace (run sink_track_throws False (take 4 ?ops2) initial_state)) =
     [Track ''FeedbackButtonClicked''
        [(''event_category'', JStr ''Feedback''), (''timestamp'', JStr ''t'')] None,
      Identify ''u1'', PeopleSet [(''email'', JStr ''a@b.com'')], Reset]"
    by (simp add: eval_defs trackEvent_defs identifyUser_defs resetUser_defs flush_loop.simps
        flush_event_def sink_track_throws_def initial_state_def tracking_calls_def
        enrichedPayload_def get_prop_def platform_def MAX_QUEUE_SIZE_def)
  show ?thesis
    using c10_debug_noninterference[OF h1 h2, of False 4 initial_state]
      c10_debug_noninterference[OF h1 h2, of False 1 initial_state] h1 h2 e
    by simp
qed

end
